theory Spec2Isabelle
  imports Main "HOL-Library.Monad_Syntax" "HOL-Library.AList" "HOL-Library.Multiset"
begin

section \<open>List grouping (\<open>groupListBlocks\<close>, src/lib/notion/index.ts)\<close>

text \<open>
  \<open>groupListBlocks\<close> is typed over \<open>Block[]\<close> and reads only the \<open>id\<close> and the
  \<open>type\<close> of a block. A block is an extensible record with these two fields; whatever else
  a block carries sits in the extension and is never looked at.
\<close>

record Block =
  block_id :: string
  block_type :: string

datatype ListKind = ul | ol

text \<open>The \<open>ListBlock\<close> of \<open>@lib/types\<close>: \<open>{ id, type: "ul" | "ol", items }\<close>.\<close>

record 'a ListBlock =
  list_id :: string
  list_type :: ListKind
  items :: "'a Block_scheme list"

text \<open>An element of the result array \<open>(Block | ListBlock)[]\<close>.\<close>

datatype 'a grouped = Blk "'a Block_scheme" | Lst "'a ListBlock"

definition is_list_item :: "'a Block_scheme \<Rightarrow> bool" where
  "is_list_item b \<longleftrightarrow>
     block_type b = ''bulleted_list_item'' \<or> block_type b = ''numbered_list_item''"

text \<open>
  One iteration of the \<open>for (const b of blocks ?? [])\<close> loop. The loop state is the pair
  of the two variables \<open>updatedBlocks\<close> and \<open>currList\<close> (\<open>None\<close> is \<open>null\<close>).
\<close>

definition group_step ::
  "'a grouped list \<times> 'a ListBlock option \<Rightarrow> 'a Block_scheme \<Rightarrow>
   'a grouped list \<times> 'a ListBlock option" where
  "group_step st b =
     (case st of (updatedBlocks, currList) \<Rightarrow>
        if is_list_item b then
          (let currList' =
             (case currList of
                None \<Rightarrow>
                  \<lparr> list_id = block_id b,
                    list_type = (if block_type b = ''bulleted_list_item'' then ul else ol),
                    items = [] \<rparr>
              | Some l \<Rightarrow> l)
           in (updatedBlocks, Some (currList'\<lparr> items := items currList' @ [b] \<rparr>)))
        else
          (case currList of
             Some l \<Rightarrow> (updatedBlocks @ [Lst l] @ [Blk b], None)
           | None \<Rightarrow> (updatedBlocks @ [Blk b], None)))"

fun group_loop ::
  "'a grouped list \<times> 'a ListBlock option \<Rightarrow> 'a Block_scheme list \<Rightarrow>
   'a grouped list \<times> 'a ListBlock option" where
  "group_loop st [] = st"
| "group_loop st (b # bs) = group_loop (group_step st b) bs"

text \<open>
  The argument is \<open>None\<close> when the caller passes \<open>null\<close> or \<open>undefined\<close>
  (\<open>blocks ?? []\<close>).
\<close>

definition groupListBlocks :: "'a Block_scheme list option \<Rightarrow> 'a grouped list" where
  "groupListBlocks blocks =
     (case group_loop ([], None) (case blocks of None \<Rightarrow> [] | Some bs \<Rightarrow> bs) of
        (updatedBlocks, currList) \<Rightarrow>
          (case currList of
             Some l \<Rightarrow> updatedBlocks @ [Lst l]
           | None \<Rightarrow> updatedBlocks))"

text \<open>The blocks of a result, in output order, each list replaced by its members.\<close>

fun ungroup :: "'a grouped list \<Rightarrow> 'a Block_scheme list" where
  "ungroup [] = []"
| "ungroup (Blk b # gs) = b # ungroup gs"
| "ungroup (Lst l # gs) = items l @ ungroup gs"

text \<open>The members of the list under construction (none when \<open>currList\<close> is \<open>null\<close>).\<close>

definition pending :: "'a ListBlock option \<Rightarrow> 'a Block_scheme list" where
  "pending currList = (case currList of None \<Rightarrow> [] | Some l \<Rightarrow> items l)"

section \<open>JavaScript values\<close>

text \<open>
  \<open>minimizeRichText\<close> and \<open>minimizeBlock\<close> are written over \<open>any\<close>: they read
  properties by name, test truthiness and build object literals. Their arguments are
  modelled as JSON data with \<open>undefined\<close>. An object is the list of its own properties
  in insertion order.
\<close>

datatype json =
    JUndefined
  | JNull
  | JBool bool
  | JNum int
  | JStr string
  | JArr "json list"
  | JObj "(string \<times> json) list"

fun truthy :: "json \<Rightarrow> bool" where
  "truthy JUndefined = False"
| "truthy JNull = False"
| "truthy (JBool b) = b"
| "truthy (JNum n) = (n \<noteq> 0)"
| "truthy (JStr s) = (s \<noteq> [])"
| "truthy (JArr xs) = True"
| "truthy (JObj kvs) = True"

text \<open>\<open>a || b\<close>\<close>

definition js_or :: "json \<Rightarrow> json \<Rightarrow> json" where
  "js_or a b = (if truthy a then a else b)"

text \<open>
  A computation yields \<open>Some v\<close> when it returns the value \<open>v\<close>. It yields \<open>None\<close> when
  it throws a \<open>TypeError\<close>, and also at the few places, each marked below, where
  JavaScript would leave plain data (a member inherited from a built-in prototype, a
  conversion of a string or an object to a number or to a property key).
\<close>

definition object_prototype_names :: "string list" where
  "object_prototype_names =
     [''constructor'', ''__defineGetter__'', ''__defineSetter__'', ''hasOwnProperty'',
      ''__lookupGetter__'', ''__lookupSetter__'', ''isPrototypeOf'',
      ''propertyIsEnumerable'', ''toString'', ''valueOf'', ''__proto__'',
      ''toLocaleString'']"

text \<open>The property names the two functions read; none of them is a member of an array.\<close>

definition source_names :: "string list" where
  "source_names =
     [''id'', ''type'', ''has_children'', ''text'', ''children'', ''icon'', ''emoji'',
      ''external'', ''url'', ''file'', ''expiry_time'', ''caption'', ''language'',
      ''has_column_header'', ''has_row_header'', ''cells'', ''column'', ''plain_text'',
      ''annotations'', ''href'', ''bold'', ''italic'', ''strikethrough'', ''underline'',
      ''code'', ''color'', ''content'', ''link'']"

text \<open>
  The property read \<open>v.k\<close> (and \<open>v[k]\<close>). Reading from \<open>undefined\<close> or \<open>null\<close> throws.
  An object gives its own property, else \<open>undefined\<close>; a name it would inherit from
  \<open>Object.prototype\<close> is outside the model. An array gives its \<open>length\<close>, and
  \<open>undefined\<close> for the names of the source; other names (indices, methods) are outside
  the model, as is every read from a string, a number or a boolean.
\<close>

fun get :: "json \<Rightarrow> string \<Rightarrow> json option" where
  "get JUndefined k = None"
| "get JNull k = None"
| "get (JObj kvs) k =
     (case map_of kvs k of
        Some v \<Rightarrow> Some v
      | None \<Rightarrow> if k \<in> set object_prototype_names then None else Some JUndefined)"
| "get (JArr xs) k =
     (if k = ''length'' then Some (JNum (int (length xs)))
      else if k \<in> set source_names then Some JUndefined
      else None)"
| "get (JBool b) k = None"
| "get (JNum n) k = None"
| "get (JStr s) k = None"

text \<open>
  \<open>v > 0\<close>, used on \<open>length\<close> values: \<open>undefined\<close> converts to \<open>NaN\<close>, \<open>null\<close> to
  \<open>0\<close>, \<open>true\<close> to \<open>1\<close>. The conversion of strings, arrays and objects to numbers is
  outside the model.
\<close>

fun js_gt0 :: "json \<Rightarrow> bool option" where
  "js_gt0 (JNum n) = Some (0 < n)"
| "js_gt0 JUndefined = Some False"
| "js_gt0 JNull = Some False"
| "js_gt0 (JBool b) = Some b"
| "js_gt0 (JStr s) = None"
| "js_gt0 (JArr xs) = None"
| "js_gt0 (JObj kvs) = None"

text \<open>\<open>v && v.length > 0\<close>\<close>

definition nonempty :: "json \<Rightarrow> bool option" where
  "nonempty v = (if truthy v then do { l \<leftarrow> get v ''length''; js_gt0 l } else Some False)"

text \<open>
  \<open>v.map(f)\<close>: only an array has a callable \<open>map\<close>; on any other value the call throws.
  The callback throws for the whole call.
\<close>

definition js_map :: "(json \<Rightarrow> json option) \<Rightarrow> json \<Rightarrow> json option" where
  "js_map f v = (case v of JArr xs \<Rightarrow> map_option JArr (those (map f xs)) | _ \<Rightarrow> None)"

section \<open>Rich-text minimization (\<open>minimizeRichText\<close>)\<close>

text \<open>
  \<open>annotations.bold || annotations.italic || ...\<close>: the properties are read in order
  until one is truthy.
\<close>

fun some_truthy :: "json \<Rightarrow> string list \<Rightarrow> bool option" where
  "some_truthy a [] = Some False"
| "some_truthy a (k # ks) =
     do { v \<leftarrow> get a k; if truthy v then Some True else some_truthy a ks }"

text \<open>The constant \<open>hasFormatting\<close>, as the condition of \<open>if (hasFormatting)\<close>.\<close>

definition hasFormatting :: "json \<Rightarrow> bool option" where
  "hasFormatting annotations =
     (if truthy annotations then
        do {
          flag \<leftarrow> some_truthy annotations
            [''bold'', ''italic'', ''strikethrough'', ''underline'', ''code''];
          if flag then Some True
          else do {
            color \<leftarrow> get annotations ''color'';
            Some (truthy color \<and> color \<noteq> JStr ''default'')
          }
        }
      else Some False)"

text \<open>
  The callback of \<open>richText.map\<close>, applied to one span. The result is the object
  \<open>minimized\<close>: \<open>plain_text\<close> and \<open>type\<close> first, then the keys the three \<open>if\<close>s add.
\<close>

definition minimizeSpan :: "json \<Rightarrow> json option" where
  "minimizeSpan text =
     do {
       plain_text \<leftarrow> get text ''plain_text'';
       annotations \<leftarrow> get text ''annotations'';
       textObj \<leftarrow> get text ''text'';
       href \<leftarrow> get text ''href'';
       formatting \<leftarrow> hasFormatting annotations;
       type \<leftarrow> get text ''type'';
       annotations_key \<leftarrow>
         (if formatting then
            do {
              bold \<leftarrow> get annotations ''bold'';
              italic \<leftarrow> get annotations ''italic'';
              strikethrough \<leftarrow> get annotations ''strikethrough'';
              underline \<leftarrow> get annotations ''underline'';
              code \<leftarrow> get annotations ''code'';
              color \<leftarrow> get annotations ''color'';
              Some [(''annotations'', JObj
                [(''bold'', js_or bold (JBool False)),
                 (''italic'', js_or italic (JBool False)),
                 (''strikethrough'', js_or strikethrough (JBool False)),
                 (''underline'', js_or underline (JBool False)),
                 (''code'', js_or code (JBool False)),
                 (''color'', js_or color (JStr ''default''))])]
            }
          else Some []);
       text_key \<leftarrow>
         (if truthy textObj then
            do {
              content \<leftarrow> get textObj ''content'';
              keep \<leftarrow> (if truthy content then Some True
                       else map_option truthy (get textObj ''link''));
              if keep then
                do {
                  link \<leftarrow> get textObj ''link'';
                  link_key \<leftarrow>
                    (if truthy link then
                       do { url \<leftarrow> get link ''url''; Some [(''link'', JObj [(''url'', url)])] }
                     else Some []);
                  Some [(''text'', JObj ((''content'', js_or content (JStr '''')) # link_key))]
                }
              else Some []
            }
          else Some []);
       Some (JObj
         ([(''plain_text'', plain_text), (''type'', js_or type (JStr ''text''))]
          @ annotations_key @ text_key
          @ (if truthy href then [(''href'', href)] else [])))
     }"

text \<open>
  \<open>if (!richText || !Array.isArray(richText)) return richText\<close>: whatever is not an
  array is returned as it is.
\<close>

definition minimizeRichText :: "json \<Rightarrow> json option" where
  "minimizeRichText richText =
     (case richText of
        JArr spans \<Rightarrow> map_option JArr (those (map minimizeSpan spans))
      | _ \<Rightarrow> Some richText)"

section \<open>Block minimization (\<open>minimizeBlock\<close>)\<close>

text \<open>
  The property key of \<open>block[type]\<close> and \<open>minimized[type]\<close>. The type tag of a block is
  a string; \<open>undefined\<close>, \<open>null\<close> and the booleans convert to their names. Keys made from
  numbers, arrays and objects are outside the model.
\<close>

fun to_key :: "json \<Rightarrow> string option" where
  "to_key (JStr s) = Some s"
| "to_key JUndefined = Some ''undefined''"
| "to_key JNull = Some ''null''"
| "to_key (JBool b) = Some (if b then ''true'' else ''false'')"
| "to_key (JNum n) = None"
| "to_key (JArr xs) = None"
| "to_key (JObj kvs) = None"

text \<open>
  The assignment \<open>o[k] = v\<close> on an object literal: an existing own property keeps its
  place, a new one goes last. Assigning to \<open>__proto__\<close> sets no own property and is
  outside the model.
\<close>

fun set_prop :: "json \<Rightarrow> string \<Rightarrow> json \<Rightarrow> json option" where
  "set_prop (JObj kvs) k v =
     (if k = ''__proto__'' then None else Some (JObj (AList.update k v kvs)))"
| "set_prop other k v = None"

text \<open>
  The spread that six branches repeat:
  \<open>...(blockData.children && blockData.children.length > 0
       ? { children: blockData.children.map((child) => minimizeBlock(child)) } : {})\<close>,
  as the list of the properties it adds. The function applied to a child is a parameter.
\<close>

definition spread_children :: "(json \<Rightarrow> json option) \<Rightarrow> json \<Rightarrow> (string \<times> json) list option" where
  "spread_children f blockData =
     do {
       children \<leftarrow> get blockData ''children'';
       some \<leftarrow> nonempty children;
       if some then do { cs \<leftarrow> js_map f children; Some [(''children'', cs)] }
       else Some []
     }"

text \<open>
  \<open>...(blockData.caption && blockData.caption.length > 0
       ? { caption: minimizeRichText(blockData.caption) } : {})\<close>
\<close>

definition spread_caption :: "json \<Rightarrow> (string \<times> json) list option" where
  "spread_caption blockData =
     do {
       caption \<leftarrow> get blockData ''caption'';
       some \<leftarrow> nonempty caption;
       if some then do { c \<leftarrow> minimizeRichText caption; Some [(''caption'', c)] }
       else Some []
     }"

lemma map_of_size: "map_of kvs k = Some v \<Longrightarrow> size v < size (JObj kvs)"
  by (induction kvs) (auto split: if_splits)

lemma get_size: "get v k = Some w \<Longrightarrow> size w \<le> size v"
  by (cases v) (auto split: option.splits if_splits dest: map_of_size)

lemma elem_size: "x \<in> set xs \<Longrightarrow> size x < size (JArr xs)"
  by (induction xs) auto

lemma child_size:
  "get block k = Some bd \<Longrightarrow> get bd k' = Some (JArr xs) \<Longrightarrow> x \<in> set xs \<Longrightarrow> size x < size block"
  using get_size [of block k bd] get_size [of bd k' "JArr xs"] elem_size [of x xs] by simp

lemma js_map_cong [fundef_cong]:
  assumes "v = v'" and "\<And>xs x. v' = JArr xs \<Longrightarrow> x \<in> set xs \<Longrightarrow> f x = g x"
  shows "js_map f v = js_map g v'"
proof (cases v')
  case (JArr xs)
  have eq: "map f xs = map g xs"
    by (rule map_cong) (simp_all add: assms(2) [OF JArr])
  show ?thesis
    unfolding js_map_def assms(1) JArr by (simp only: json.case eq)
qed (simp_all add: assms(1) js_map_def)

lemma spread_children_cong [fundef_cong]:
  assumes "bd = bd'"
    and "\<And>xs x. get bd' ''children'' = Some (JArr xs) \<Longrightarrow> x \<in> set xs \<Longrightarrow> f x = g x"
  shows "spread_children f bd = spread_children g bd'"
proof (cases "get bd' ''children''")
  case None
  then show ?thesis
    by (simp add: spread_children_def assms(1))
next
  case (Some c)
  have eq: "js_map f c = js_map g c"
    by (rule js_map_cong) (use assms(2) Some in auto)
  show ?thesis
    unfolding spread_children_def assms(1) Some by (simp add: eq cong del: if_weak_cong)
qed

function minimizeBlock :: "json \<Rightarrow> json option" where
  "minimizeBlock block =
     do {
       id \<leftarrow> get block ''id'';
       type \<leftarrow> get block ''type'';
       has_children \<leftarrow> get block ''has_children'';
       key \<leftarrow> to_key type;
       blockData \<leftarrow> get block key;
       payload \<leftarrow>
         (if type = JStr ''paragraph'' \<or> type = JStr ''heading_1''
             \<or> type = JStr ''heading_2'' \<or> type = JStr ''heading_3'' then
            do {
              text \<leftarrow> get blockData ''text'';
              text' \<leftarrow> minimizeRichText text;
              children \<leftarrow> spread_children minimizeBlock blockData;
              Some (JObj ((''text'', text') # children))
            }
          else if type = JStr ''quote'' then
            do {
              text \<leftarrow> get blockData ''text'';
              text' \<leftarrow> minimizeRichText text;
              children \<leftarrow> spread_children minimizeBlock blockData;
              Some (JObj ((''text'', text') # children))
            }
          else if type = JStr ''bulleted_list_item'' \<or> type = JStr ''numbered_list_item'' then
            do {
              text \<leftarrow> get blockData ''text'';
              text' \<leftarrow> minimizeRichText text;
              children \<leftarrow> spread_children minimizeBlock blockData;
              Some (JObj ((''text'', text') # children))
            }
          else if type = JStr ''callout'' then
            do {
              text \<leftarrow> get blockData ''text'';
              text' \<leftarrow> minimizeRichText text;
              icon \<leftarrow> get blockData ''icon'';
              icon' \<leftarrow>
                (if truthy icon then
                   do {
                     emoji \<leftarrow> get icon ''emoji'';
                     icon_type \<leftarrow> get icon ''type'';
                     Some (JObj [(''emoji'', emoji), (''type'', icon_type)])
                   }
                 else Some JUndefined);
              children \<leftarrow> spread_children minimizeBlock blockData;
              Some (JObj ([(''text'', text'), (''icon'', icon')] @ children))
            }
          else if type = JStr ''image'' \<or> type = JStr ''video'' then
            do {
              media_type \<leftarrow> get blockData ''type'';
              source \<leftarrow>
                (if media_type = JStr ''external'' then
                   do {
                     external \<leftarrow> get blockData ''external'';
                     url \<leftarrow> get external ''url'';
                     Some [(''external'', JObj [(''url'', url)])]
                   }
                 else
                   do {
                     file \<leftarrow> get blockData ''file'';
                     url \<leftarrow> get file ''url'';
                     expiry_time \<leftarrow> get file ''expiry_time'';
                     Some [(''file'', JObj [(''url'', url), (''expiry_time'', expiry_time)])]
                   });
              caption \<leftarrow> spread_caption blockData;
              Some (JObj ([(''type'', media_type)] @ source @ caption))
            }
          else if type = JStr ''code'' then
            do {
              text \<leftarrow> get blockData ''text'';
              text' \<leftarrow> (if truthy text then minimizeRichText text else Some (JArr []));
              language \<leftarrow> get blockData ''language'';
              caption \<leftarrow> spread_caption blockData;
              Some (JObj ([(''text'', text'),
                           (''language'', js_or language (JStr ''plain text''))] @ caption))
            }
          else if type = JStr ''divider'' then Some (JObj [])
          else if type = JStr ''embed'' then
            do {
              url \<leftarrow> get blockData ''url'';
              caption \<leftarrow> spread_caption blockData;
              Some (JObj ([(''url'', url)] @ caption))
            }
          else if type = JStr ''table'' then
            do {
              has_column_header \<leftarrow> get blockData ''has_column_header'';
              has_row_header \<leftarrow> get blockData ''has_row_header'';
              children \<leftarrow> spread_children minimizeBlock blockData;
              Some (JObj ([(''has_column_header'', js_or has_column_header (JBool False)),
                           (''has_row_header'', js_or has_row_header (JBool False))]
                          @ children))
            }
          else if type = JStr ''table_row'' then
            do {
              cells \<leftarrow> get blockData ''cells'';
              cells' \<leftarrow> (if truthy cells then js_map minimizeRichText cells
                         else Some (JArr []));
              Some (JObj [(''cells'', cells')])
            }
          else if type = JStr ''column_list'' then
            do {
              children \<leftarrow> get blockData ''children'';
              children' \<leftarrow> (if truthy children then js_map minimizeBlock children
                            else Some (JArr []));
              Some (JObj [(''children'', children')])
            }
          else if type = JStr ''column'' then
            do {
              column \<leftarrow> get blockData ''column'';
              if truthy column then
                do { cs \<leftarrow> js_map minimizeBlock column; Some (JObj [(''column'', cs)]) }
              else
                do {
                  children \<leftarrow> get blockData ''children'';
                  if truthy children then
                    do { cs \<leftarrow> js_map minimizeBlock children; Some (JObj [(''children'', cs)]) }
                  else Some (JObj [])
                }
            }
          else if truthy blockData then
            do {
              text \<leftarrow> get blockData ''text'';
              if truthy text then
                do {
                  text' \<leftarrow> minimizeRichText text;
                  children \<leftarrow> spread_children minimizeBlock blockData;
                  Some (JObj ((''text'', text') # children))
                }
              else Some blockData
            }
          else Some (JObj []));
       set_prop (JObj [(''id'', id), (''type'', type), (''has_children'', has_children)])
         key payload
     }"
  by pat_completeness auto

termination minimizeBlock
  apply (relation "measure size")
   apply simp
         apply (simp, erule (2) child_size)+
  done

declare minimizeBlock.simps [simp del]
section \<open>Reading the minimizer's input and output\<close>

text \<open>
  What follows is not code of the repository: it is the vocabulary in which the properties
  of \<open>minimizeRichText\<close> and \<open>minimizeBlock\<close> are stated and proved.

  \<open>is_object v\<close>: \<open>v\<close> is an object or an array, the values whose properties the model
  reads. \<open>field v k\<close> is the property \<open>k\<close> of \<open>v\<close>, \<open>undefined\<close> when there is none.
  \<open>has_prop v k\<close>: the object \<open>v\<close> has the key \<open>k\<close>.
\<close>

fun is_object :: "json \<Rightarrow> bool" where
  "is_object (JObj kvs) = True"
| "is_object (JArr xs) = True"
| "is_object v = False"

definition field :: "json \<Rightarrow> string \<Rightarrow> json" where
  "field v k = (case get v k of Some x \<Rightarrow> x | None \<Rightarrow> JUndefined)"

fun has_prop :: "json \<Rightarrow> string \<Rightarrow> bool" where
  "has_prop (JObj kvs) k = (map_of kvs k \<noteq> None)"
| "has_prop v k = False"

text \<open>
  A span's annotations carry formatting: the annotations object is there, and one of
  \<open>bold\<close>, \<open>italic\<close>, \<open>strikethrough\<close>, \<open>underline\<close>, \<open>code\<close> is set or
  \<open>color\<close> is set to something other than \<open>"default"\<close>.
\<close>

definition styled :: "json \<Rightarrow> bool" where
  "styled a \<longleftrightarrow>
     truthy a \<and>
     (list_ex (\<lambda>k. truthy (field a k))
        [''bold'', ''italic'', ''strikethrough'', ''underline'', ''code'']
      \<or> (truthy (field a ''color'') \<and> field a ''color'' \<noteq> JStr ''default''))"

text \<open>
  The spans on which the callback returns: the span is an object, and so are its
  \<open>annotations\<close>, its \<open>text\<close> and the \<open>link\<close> of its \<open>text\<close> wherever they are
  truthy (a truthy string, number or boolean there is outside the model).
\<close>

definition span_ok :: "json \<Rightarrow> bool" where
  "span_ok t \<longleftrightarrow>
     is_object t
     \<and> (truthy (field t ''annotations'') \<longrightarrow> is_object (field t ''annotations''))
     \<and> (truthy (field t ''text'') \<longrightarrow>
          is_object (field t ''text'')
          \<and> (truthy (field (field t ''text'') ''link'') \<longrightarrow>
               is_object (field (field t ''text'') ''link'')))"

text \<open>
  The object the callback builds for a span, written without the reads that can fail:
  \<open>annotations_obj\<close> and \<open>text_obj\<close> are the two object literals,
  \<open>keeps_text\<close> is the condition \<open>textObj && (textObj.content || textObj.link)\<close>.
\<close>

definition annotations_obj :: "json \<Rightarrow> json" where
  "annotations_obj a = JObj
     [(''bold'', js_or (field a ''bold'') (JBool False)),
      (''italic'', js_or (field a ''italic'') (JBool False)),
      (''strikethrough'', js_or (field a ''strikethrough'') (JBool False)),
      (''underline'', js_or (field a ''underline'') (JBool False)),
      (''code'', js_or (field a ''code'') (JBool False)),
      (''color'', js_or (field a ''color'') (JStr ''default''))]"

definition keeps_text :: "json \<Rightarrow> bool" where
  "keeps_text tx \<longleftrightarrow> truthy tx \<and> (truthy (field tx ''content'') \<or> truthy (field tx ''link''))"

definition text_obj :: "json \<Rightarrow> json" where
  "text_obj tx = JObj
     ((''content'', js_or (field tx ''content'') (JStr ''''))
      # (if truthy (field tx ''link'')
         then [(''link'', JObj [(''url'', field (field tx ''link'') ''url'')])] else []))"

definition minimized_span :: "json \<Rightarrow> json" where
  "minimized_span t = JObj
     ([(''plain_text'', field t ''plain_text''),
       (''type'', js_or (field t ''type'') (JStr ''text''))]
      @ (if styled (field t ''annotations'')
         then [(''annotations'', annotations_obj (field t ''annotations''))] else [])
      @ (if keeps_text (field t ''text'')
         then [(''text'', text_obj (field t ''text''))] else [])
      @ (if truthy (field t ''href'') then [(''href'', field t ''href'')] else []))"

text \<open>
  A span as the content service returns it: no formatting, the default color, no link.
\<close>

definition example_span :: json where
  "example_span = JObj
     [(''type'', JStr ''text''),
      (''text'', JObj [(''content'', JStr ''hi''), (''link'', JNull)]),
      (''annotations'', JObj
         [(''bold'', JBool False), (''italic'', JBool False),
          (''strikethrough'', JBool False), (''underline'', JBool False),
          (''code'', JBool False), (''color'', JStr ''default'')]),
      (''plain_text'', JStr ''hi''),
      (''href'', JNull)]"

text \<open>
  A span as the content service returns it for bold red text that links to a page.
\<close>

definition example_link_span :: json where
  "example_link_span = JObj
     [(''type'', JStr ''text''),
      (''text'', JObj [(''content'', JStr ''docs''),
                       (''link'', JObj [(''url'', JStr ''https://example.com'')])]),
      (''annotations'', JObj
         [(''bold'', JBool True), (''italic'', JBool False),
          (''strikethrough'', JBool False), (''underline'', JBool False),
          (''code'', JBool False), (''color'', JStr ''red'')]),
      (''plain_text'', JStr ''docs''),
      (''href'', JStr ''https://example.com'')]"

text \<open>
  The branches of \<open>minimizeBlock\<close>, one definition for each object literal assigned to
  \<open>minimized[type]\<close>, with the function applied to child blocks as a parameter.
  \<open>payload\<close> is the chain of \<open>if\<close>s that selects the branch. Lemma
  \<open>minimizeBlock_payload\<close> shows that the body of \<open>minimizeBlock\<close> is exactly this
  chain; the definitions only give the branches names.
\<close>

definition text_payload :: "(json \<Rightarrow> json option) \<Rightarrow> json \<Rightarrow> json option" where
  "text_payload f blockData =
     do {
       text \<leftarrow> get blockData ''text'';
       text' \<leftarrow> minimizeRichText text;
       children \<leftarrow> spread_children f blockData;
       Some (JObj ((''text'', text') # children))
     }"

definition callout_payload :: "(json \<Rightarrow> json option) \<Rightarrow> json \<Rightarrow> json option" where
  "callout_payload f blockData =
     do {
       text \<leftarrow> get blockData ''text'';
       text' \<leftarrow> minimizeRichText text;
       icon \<leftarrow> get blockData ''icon'';
       icon' \<leftarrow>
         (if truthy icon then
            do {
              emoji \<leftarrow> get icon ''emoji'';
              icon_type \<leftarrow> get icon ''type'';
              Some (JObj [(''emoji'', emoji), (''type'', icon_type)])
            }
          else Some JUndefined);
       children \<leftarrow> spread_children f blockData;
       Some (JObj ([(''text'', text'), (''icon'', icon')] @ children))
     }"

definition media_payload :: "json \<Rightarrow> json option" where
  "media_payload blockData =
     do {
       media_type \<leftarrow> get blockData ''type'';
       source \<leftarrow>
         (if media_type = JStr ''external'' then
            do {
              external \<leftarrow> get blockData ''external'';
              url \<leftarrow> get external ''url'';
              Some [(''external'', JObj [(''url'', url)])]
            }
          else
            do {
              file \<leftarrow> get blockData ''file'';
              url \<leftarrow> get file ''url'';
              expiry_time \<leftarrow> get file ''expiry_time'';
              Some [(''file'', JObj [(''url'', url), (''expiry_time'', expiry_time)])]
            });
       caption \<leftarrow> spread_caption blockData;
       Some (JObj ([(''type'', media_type)] @ source @ caption))
     }"

definition code_payload :: "json \<Rightarrow> json option" where
  "code_payload blockData =
     do {
       text \<leftarrow> get blockData ''text'';
       text' \<leftarrow> (if truthy text then minimizeRichText text else Some (JArr []));
       language \<leftarrow> get blockData ''language'';
       caption \<leftarrow> spread_caption blockData;
       Some (JObj ([(''text'', text'),
                    (''language'', js_or language (JStr ''plain text''))] @ caption))
     }"

definition embed_payload :: "json \<Rightarrow> json option" where
  "embed_payload blockData =
     do {
       url \<leftarrow> get blockData ''url'';
       caption \<leftarrow> spread_caption blockData;
       Some (JObj ([(''url'', url)] @ caption))
     }"

definition table_payload :: "(json \<Rightarrow> json option) \<Rightarrow> json \<Rightarrow> json option" where
  "table_payload f blockData =
     do {
       has_column_header \<leftarrow> get blockData ''has_column_header'';
       has_row_header \<leftarrow> get blockData ''has_row_header'';
       children \<leftarrow> spread_children f blockData;
       Some (JObj ([(''has_column_header'', js_or has_column_header (JBool False)),
                    (''has_row_header'', js_or has_row_header (JBool False))]
                   @ children))
     }"

definition table_row_payload :: "json \<Rightarrow> json option" where
  "table_row_payload blockData =
     do {
       cells \<leftarrow> get blockData ''cells'';
       cells' \<leftarrow> (if truthy cells then js_map minimizeRichText cells
                  else Some (JArr []));
       Some (JObj [(''cells'', cells')])
     }"

definition column_list_payload :: "(json \<Rightarrow> json option) \<Rightarrow> json \<Rightarrow> json option" where
  "column_list_payload f blockData =
     do {
       children \<leftarrow> get blockData ''children'';
       children' \<leftarrow> (if truthy children then js_map f children
                     else Some (JArr []));
       Some (JObj [(''children'', children')])
     }"

definition column_payload :: "(json \<Rightarrow> json option) \<Rightarrow> json \<Rightarrow> json option" where
  "column_payload f blockData =
     do {
       column \<leftarrow> get blockData ''column'';
       if truthy column then
         do { cs \<leftarrow> js_map f column; Some (JObj [(''column'', cs)]) }
       else
         do {
           children \<leftarrow> get blockData ''children'';
           if truthy children then
             do { cs \<leftarrow> js_map f children; Some (JObj [(''children'', cs)]) }
           else Some (JObj [])
         }
     }"

definition unknown_payload :: "(json \<Rightarrow> json option) \<Rightarrow> json \<Rightarrow> json option" where
  "unknown_payload f blockData =
     (if truthy blockData then
        do {
          text \<leftarrow> get blockData ''text'';
          if truthy text then
            do {
              text' \<leftarrow> minimizeRichText text;
              children \<leftarrow> spread_children f blockData;
              Some (JObj ((''text'', text') # children))
            }
          else Some blockData
        }
      else Some (JObj []))"

definition payload :: "(json \<Rightarrow> json option) \<Rightarrow> json \<Rightarrow> json \<Rightarrow> json option" where
  "payload f type blockData =
     (if type = JStr ''paragraph'' \<or> type = JStr ''heading_1''
         \<or> type = JStr ''heading_2'' \<or> type = JStr ''heading_3'' then
        text_payload f blockData
      else if type = JStr ''quote'' then text_payload f blockData
      else if type = JStr ''bulleted_list_item'' \<or> type = JStr ''numbered_list_item'' then
        text_payload f blockData
      else if type = JStr ''callout'' then callout_payload f blockData
      else if type = JStr ''image'' \<or> type = JStr ''video'' then media_payload blockData
      else if type = JStr ''code'' then code_payload blockData
      else if type = JStr ''divider'' then Some (JObj [])
      else if type = JStr ''embed'' then embed_payload blockData
      else if type = JStr ''table'' then table_payload f blockData
      else if type = JStr ''table_row'' then table_row_payload blockData
      else if type = JStr ''column_list'' then column_list_payload f blockData
      else if type = JStr ''column'' then column_payload f blockData
      else unknown_payload f blockData)"

text \<open>
  \<open>elems v\<close>: the elements of an array (none for any other value). \<open>stable_on f xs\<close>:
  on every element of \<open>xs\<close> where \<open>f\<close> returns, applying \<open>f\<close> to the result returns
  the result again. \<open>caption_stable\<close> and \<open>children_stable\<close> describe what the two
  spreads add to a payload: nothing, or one property whose value is non-empty and is
  left unchanged by minimizing it again.
\<close>

fun elems :: "json \<Rightarrow> json list" where
  "elems (JArr xs) = xs"
| "elems v = []"

definition stable_on :: "(json \<Rightarrow> json option) \<Rightarrow> json list \<Rightarrow> bool" where
  "stable_on f xs \<longleftrightarrow> list_all (\<lambda>x. case f x of None \<Rightarrow> True | Some y \<Rightarrow> f y = Some y) xs"

definition caption_stable :: "(string \<times> json) list \<Rightarrow> bool" where
  "caption_stable cap \<longleftrightarrow>
     cap = [] \<or> (\<exists>c. cap = [(''caption'', c)] \<and> nonempty c = Some True
                      \<and> minimizeRichText c = Some c)"

definition children_stable :: "(json \<Rightarrow> json option) \<Rightarrow> (string \<times> json) list \<Rightarrow> bool" where
  "children_stable f ch \<longleftrightarrow>
     ch = [] \<or> (\<exists>cs. ch = [(''children'', cs)] \<and> nonempty cs = Some True
                      \<and> js_map f cs = Some cs)"

text \<open>
  A paragraph block with the metadata the content service attaches, one span and one
  resolved child, and the block \<open>minimizeBlock\<close> returns for it.
\<close>

definition example_block :: json where
  "example_block = JObj
     [(''object'', JStr ''block''),
      (''id'', JStr ''b1''),
      (''created_time'', JStr ''2021-05-17T10:00:00.000Z''),
      (''has_children'', JBool True),
      (''type'', JStr ''paragraph''),
      (''paragraph'', JObj
         [(''text'', JArr [example_span]),
          (''children'', JArr
             [JObj
                [(''object'', JStr ''block''),
                 (''id'', JStr ''b2''),
                 (''has_children'', JBool False),
                 (''type'', JStr ''bulleted_list_item''),
                 (''bulleted_list_item'', JObj [(''text'', JArr [])])]])])]"

definition example_block_minimized :: json where
  "example_block_minimized = JObj
     [(''id'', JStr ''b1''),
      (''type'', JStr ''paragraph''),
      (''has_children'', JBool True),
      (''paragraph'', JObj
         [(''text'', JArr
             [JObj [(''plain_text'', JStr ''hi''), (''type'', JStr ''text''),
                    (''text'', JObj [(''content'', JStr ''hi'')])]]),
          (''children'', JArr
             [JObj
                [(''id'', JStr ''b2''),
                 (''type'', JStr ''bulleted_list_item''),
                 (''has_children'', JBool False),
                 (''bulleted_list_item'', JObj [(''text'', JArr [])])]])])]"

section \<open>Posts: the collection query (\<open>getDatabase\<close>) and \<open>mapDatabaseToPaths\<close>\<close>

text \<open>
  Modelled from the spec: the type \<open>PostProps\<close> of \<open>@lib/types\<close> is declared outside
  the sources. A post is the record of the properties the code reads, under the names
  it reads them by (\<open>r.properties.Date.date\<close>, \<open>r.properties.Slug.rich_text\<close>, ...),
  which are the required properties of a Post in section 3 of the specification.
\<close>

record TextSpan =
  plain_text :: string

record DateValue =
  start :: string

record DateProperty =
  date :: "DateValue option"

record RichTextProperty =
  rich_text :: "TextSpan list"

record TitleProperty =
  title :: "TextSpan list"

record PeopleProperty =
  people :: "string list"

record CheckboxProperty =
  checkbox :: bool

record Properties =
  Date :: DateProperty
  Description :: RichTextProperty
  Slug :: RichTextProperty
  Page :: TitleProperty
  Authors :: PeopleProperty
  Published :: CheckboxProperty

record PostProps =
  properties :: Properties

text \<open>The predicate of \<open>results.filter(...)\<close> in \<open>getDatabase\<close> (lines 163 to 171).\<close>

definition keep_post :: "bool \<Rightarrow> 'a PostProps_scheme \<Rightarrow> bool" where
  "keep_post includeUnpublished r \<longleftrightarrow>
     date (Date (properties r)) \<noteq> None \<and>
     length (rich_text (Description (properties r))) > 0 \<and>
     length (rich_text (Slug (properties r))) > 0 \<and>
     length (title (Page (properties r))) > 0 \<and>
     length (people (Authors (properties r))) > 0 \<and>
     (includeUnpublished \<or> checkbox (Published (properties r)))"

text \<open>
  The comparator of \<open>.sort(...)\<close>: \<open>dateB.getTime() - dateA.getTime()\<close>. Parsing a date
  string (\<open>new Date(s).getTime()\<close>) is a parameter \<open>getTime\<close>; it gives \<open>None\<close> for
  \<open>NaN\<close>, the time of an invalid date. A difference with \<open>NaN\<close> is \<open>NaN\<close>, which
  \<open>sort\<close> takes for \<open>0\<close>. Reading \<open>start\<close> from a \<open>null\<close> date throws: the result
  is \<open>None\<close>.
\<close>

definition compare_dates ::
  "(string \<Rightarrow> int option) \<Rightarrow> 'a PostProps_scheme \<Rightarrow> 'a PostProps_scheme \<Rightarrow> int option" where
  "compare_dates getTime a b =
     do {
       da \<leftarrow> date (Date (properties a));
       db \<leftarrow> date (Date (properties b));
       Some (case (getTime (start db), getTime (start da)) of
               (Some tb, Some ta) \<Rightarrow> tb - ta
             | _ \<Rightarrow> 0)
     }"

text \<open>
  \<open>Array.prototype.sort\<close> with a comparator: the sort is stable, and for a consistent
  comparator its result is determined, so a stable insertion sort stands for it (for an
  inconsistent comparator JavaScript leaves the order to the implementation). \<open>x\<close> goes
  before the first \<open>y\<close> with \<open>compare(x, y) \<le> 0\<close>. A comparator that throws makes the
  sort throw.
\<close>

fun js_insert :: "('a \<Rightarrow> 'a \<Rightarrow> int option) \<Rightarrow> 'a \<Rightarrow> 'a list \<Rightarrow> 'a list option" where
  "js_insert cmp x [] = Some [x]"
| "js_insert cmp x (y # ys) =
     do {
       v \<leftarrow> cmp x y;
       if v \<le> 0 then Some (x # y # ys)
       else map_option ((#) y) (js_insert cmp x ys)
     }"

fun js_sort :: "('a \<Rightarrow> 'a \<Rightarrow> int option) \<Rightarrow> 'a list \<Rightarrow> 'a list option" where
  "js_sort cmp [] = Some []"
| "js_sort cmp (x # xs) = do { sorted_tail \<leftarrow> js_sort cmp xs; js_insert cmp x sorted_tail }"

text \<open>
  The constant \<open>filtered\<close> of \<open>getDatabase\<close>: the records fetched, filtered and sorted.
\<close>

definition filtered ::
  "(string \<Rightarrow> int option) \<Rightarrow> bool \<Rightarrow> 'a PostProps_scheme list \<Rightarrow> 'a PostProps_scheme list option" where
  "filtered getTime includeUnpublished results =
     js_sort (compare_dates getTime) (filter (keep_post includeUnpublished) results)"

text \<open>
  \<open>mapDatabaseToPaths\<close>: \<open>item.properties.Slug.rich_text[0].plain_text\<close> reads the first
  span without a guard; on an empty \<open>rich_text\<close> the element is \<open>undefined\<close> and the read
  of \<open>plain_text\<close> throws (\<open>None\<close>).
\<close>

record PathParams =
  slug :: string

record Path =
  params :: PathParams

definition first_slug :: "'a PostProps_scheme \<Rightarrow> string option" where
  "first_slug item =
     (case rich_text (Slug (properties item)) of
        [] \<Rightarrow> None
      | span # rest \<Rightarrow> Some (plain_text span))"

definition mapDatabaseToPaths :: "'a PostProps_scheme list \<Rightarrow> Path list option" where
  "mapDatabaseToPaths database =
     those (map (\<lambda>item. map_option (\<lambda>s. \<lparr>params = \<lparr>slug = s\<rparr>\<rparr>) (first_slug item)) database)"

text \<open>
  The invariant of a Post (section 3 of the specification): date, description, slug,
  title and authors are all there. \<open>time_of\<close> is the publish time of a post whose date
  parses.
\<close>

definition complete :: "'a PostProps_scheme \<Rightarrow> bool" where
  "complete r \<longleftrightarrow>
     date (Date (properties r)) \<noteq> None \<and>
     rich_text (Description (properties r)) \<noteq> [] \<and>
     rich_text (Slug (properties r)) \<noteq> [] \<and>
     title (Page (properties r)) \<noteq> [] \<and>
     people (Authors (properties r)) \<noteq> []"


text \<open>
  The records a query is meant to return: complete, and published unless unpublished
  posts are asked for. \<open>dated\<close>: the date string of the post parses.
\<close>

definition eligible :: "bool \<Rightarrow> 'a PostProps_scheme \<Rightarrow> bool" where
  "eligible includeUnpublished r \<longleftrightarrow>
     complete r \<and> (includeUnpublished \<or> checkbox (Published (properties r)))"



text \<open>
  Example records: a post with every required property, given its slug, its date and
  its published flag; and a record without a description. \<open>example_getTime\<close> parses
  the two dates the examples use.
\<close>

definition example_post :: "string \<Rightarrow> string \<Rightarrow> bool \<Rightarrow> PostProps" where
  "example_post s d p =
     \<lparr>properties =
        \<lparr>Date = \<lparr>date = Some \<lparr>start = d\<rparr>\<rparr>,
         Description = \<lparr>rich_text = [\<lparr>plain_text = ''about''\<rparr>]\<rparr>,
         Slug = \<lparr>rich_text = [\<lparr>plain_text = s\<rparr>]\<rparr>,
         Page = \<lparr>title = [\<lparr>plain_text = ''A post''\<rparr>]\<rparr>,
         Authors = \<lparr>people = [''ada'']\<rparr>,
         Published = \<lparr>checkbox = p\<rparr>\<rparr>\<rparr>"

definition example_draft :: PostProps where
  "example_draft =
     \<lparr>properties =
        \<lparr>Date = \<lparr>date = Some \<lparr>start = ''2024-02-01''\<rparr>\<rparr>,
         Description = \<lparr>rich_text = []\<rparr>,
         Slug = \<lparr>rich_text = [\<lparr>plain_text = ''draft''\<rparr>]\<rparr>,
         Page = \<lparr>title = [\<lparr>plain_text = ''A draft''\<rparr>]\<rparr>,
         Authors = \<lparr>people = [''ada'']\<rparr>,
         Published = \<lparr>checkbox = True\<rparr>\<rparr>\<rparr>"

definition example_getTime :: "string \<Rightarrow> int option" where
  "example_getTime s =
     (if s = ''2024-01-01'' then Some 1704067200000
      else if s = ''2024-02-01'' then Some 1706745600000
      else None)"

definition example_results :: "PostProps list" where
  "example_results =
     [example_post ''first'' ''2024-01-01'' True,
      example_draft,
      example_post ''second'' ''2024-02-01'' False,
      example_post ''third'' ''2024-01-01'' True,
      example_post ''fourth'' ''2024-02-01'' True]"

section \<open>The resilient call wrapper (\<open>isRetryableError\<close>, \<open>withTimeout\<close>, \<open>withRetry\<close>)\<close>

text \<open>
  \<open>isRetryableError\<close> takes \<open>error: any\<close> and reads it only through \<open>error?.code\<close>,
  \<open>error?.status\<close> and \<open>error?.message\<close>. An error is the record of these three reads
  (\<open>None\<close> for \<open>undefined\<close>): the code and the message are strings, the status is a
  number.
\<close>

record js_error =
  err_code :: "string option"
  err_status :: "int option"
  err_message :: "string option"

definition MAX_RETRIES :: nat where
  "MAX_RETRIES = 5"

definition CACHE_TTL_MS :: int where
  "CACHE_TTL_MS = 60 * 1000"

text \<open>\<open>s.includes(sub)\<close>\<close>

fun starts_with :: "string \<Rightarrow> string \<Rightarrow> bool" where
  "starts_with s [] = True"
| "starts_with [] (c # cs) = False"
| "starts_with (x # xs) (c # cs) = (x = c \<and> starts_with xs cs)"

fun js_includes :: "string \<Rightarrow> string \<Rightarrow> bool" where
  "js_includes [] sub = (sub = [])"
| "js_includes (x # xs) sub = (starts_with (x # xs) sub \<or> js_includes xs sub)"

text \<open>
  \<open>message.match(/status:\s*(\d+)/)?.[1]\<close>: the digits captured by the leftmost
  match, a string. At a position where \<open>status:\<close> stands, \<open>\s*\<close> takes all the white
  space that follows and \<open>\d+\<close> all the digits after it; without a digit there the match
  fails at this position and is tried at the next. The white space is that of ASCII.
\<close>

definition is_space :: "char \<Rightarrow> bool" where
  "is_space c \<longleftrightarrow> c \<in> set [CHR '' '', CHR 0x09, CHR 0x0A, CHR 0x0B, CHR 0x0C, CHR 0x0D]"

definition is_digit :: "char \<Rightarrow> bool" where
  "is_digit c \<longleftrightarrow> c \<in> set ''0123456789''"

fun match_status :: "string \<Rightarrow> string option" where
  "match_status [] = None"
| "match_status (c # cs) =
     (if starts_with (c # cs) ''status:'' then
        (let digits = takeWhile is_digit (dropWhile is_space (drop 7 (c # cs)))
         in if digits \<noteq> [] then Some digits else match_status cs)
      else match_status cs)"

text \<open>
  The constant \<open>status\<close> of \<open>isRetryableError\<close>:
  \<open>error?.status || error?.message?.match(/status:\s*(\d+)/)?.[1]\<close>. It is a number when
  it comes from the \<open>status\<close> property and a string when it comes from the message.
\<close>

definition status_of :: "js_error \<Rightarrow> json" where
  "status_of error =
     js_or (case err_status error of Some n \<Rightarrow> JNum n | None \<Rightarrow> JUndefined)
       (case err_message error of
          Some m \<Rightarrow> (case match_status m of Some digits \<Rightarrow> JStr digits | None \<Rightarrow> JUndefined)
        | None \<Rightarrow> JUndefined)"

text \<open>\<open>===\<close> compares without conversion: a string is never equal to a number.\<close>

definition isRetryableError :: "js_error \<Rightarrow> bool" where
  "isRetryableError error =
     (if err_code error = Some ''notionhq_client_response_error'' then
        (let status = status_of error
         in status = JNum 502 \<or> status = JNum 503 \<or> status = JNum 504 \<or> status = JNum 429)
      else if err_code error = Some ''ECONNRESET'' \<or> err_code error = Some ''ETIMEDOUT''
              \<or> err_code error = Some ''ENOTFOUND'' then True
      else if (case err_message error of
                 Some m \<Rightarrow> js_includes m ''timeout'' \<or> js_includes m ''TIMEOUT''
               | None \<Rightarrow> False) then True
      else False)"

text \<open>
  A promise as \<open>withTimeout\<close> sees it: resolved or rejected before the timer fires, or
  still pending when it does. \<open>withRetry\<close> always passes \<open>TIMEOUT_MS = 30000\<close>, so the
  error of the timer is \<open>Error("Operation timed out after 30000ms")\<close>.
\<close>

datatype 'a settled = Resolved 'a | Rejected js_error | Pending

definition timeout_error :: js_error where
  "timeout_error =
     \<lparr>err_code = None, err_status = None,
      err_message = Some ''Operation timed out after 30000ms''\<rparr>"

definition withTimeout :: "'a settled \<Rightarrow> js_error + 'a" where
  "withTimeout promise =
     (case promise of
        Resolved v \<Rightarrow> Inr v
      | Rejected e \<Rightarrow> Inl e
      | Pending \<Rightarrow> Inl timeout_error)"

text \<open>
  \<open>withRetry\<close>. The operation \<open>fn\<close> acts on a state \<open>'w\<close> (each call of \<open>fn()\<close> may see
  a changed world) and yields a promise. The loop variable \<open>attempt\<close> runs from \<open>0\<close> to
  \<open>MAX_RETRIES\<close>; \<open>lastError\<close> is \<open>undefined\<close> at first, which reads like an error
  without properties. The result is \<open>Inr\<close> the value returned or \<open>Inl\<close> the error thrown.
  The warning that is logged and the backoff (\<open>sleep\<close> with jitter, lines 109 to 120) only
  delay the next attempt and are left out, as is the name of the operation.
\<close>

definition undefined_error :: js_error where
  "undefined_error = \<lparr>err_code = None, err_status = None, err_message = None\<rparr>"

function withRetry_loop ::
  "nat \<Rightarrow> js_error \<Rightarrow> ('w \<Rightarrow> 'a settled \<times> 'w) \<Rightarrow> 'w \<Rightarrow> (js_error + 'a) \<times> 'w" where
  "withRetry_loop attempt lastError fn w =
     (if attempt \<le> MAX_RETRIES then
        (case fn w of
           (promise, w') \<Rightarrow>
             (case withTimeout promise of
                Inr v \<Rightarrow> (Inr v, w')
              | Inl error \<Rightarrow>
                  if \<not> isRetryableError error \<or> attempt = MAX_RETRIES then (Inl error, w')
                  else withRetry_loop (attempt + 1) error fn w'))
      else (Inl lastError, w))"
  by pat_completeness auto
termination
  by (relation "measure (\<lambda>(attempt, lastError, fn, w). Suc MAX_RETRIES - attempt)") auto

declare withRetry_loop.simps [simp del]

definition withRetry :: "('w \<Rightarrow> 'a settled \<times> 'w) \<Rightarrow> 'w \<Rightarrow> (js_error + 'a) \<times> 'w" where
  "withRetry fn w = withRetry_loop 0 undefined_error fn w"

text \<open>
  An operation that follows a script: its \<open>n\<close>-th invocation (counting from \<open>0\<close>)
  yields the \<open>n\<close>-th outcome of the list, and stays pending once the script has run
  out. The state is the number of invocations made.
\<close>

definition scripted :: "'a settled list \<Rightarrow> nat \<Rightarrow> 'a settled \<times> nat" where
  "scripted outcomes n = (if n < length outcomes then outcomes ! n else Pending, Suc n)"

definition response_error :: "int option \<Rightarrow> string \<Rightarrow> js_error" where
  "response_error st m =
     \<lparr>err_code = Some ''notionhq_client_response_error'', err_status = st,
      err_message = Some m\<rparr>"

section \<open>The response cache and the cached queries\<close>

text \<open>
  What the cache holds and the queries return: \<open>null\<close>, a post, a list of posts or a list
  of blocks.
\<close>

datatype cval = Null | APost PostProps | PostList "PostProps list" | BlockList "json list"

fun truthy_cval :: "cval \<Rightarrow> bool" where
  "truthy_cval Null = False"
| "truthy_cval v = True"

record CacheEntry =
  entry_data :: cval
  entry_timestamp :: int

text \<open>
  The arguments of \<open>notion.databases.query\<close> and \<open>notion.blocks.children.list\<close>, and their
  responses (\<open>results\<close> and \<open>next_cursor\<close>, \<open>None\<close> for \<open>null\<close>).
\<close>

record QueryArgs =
  arg_database_id :: string
  arg_page_size :: nat
  arg_start_cursor :: "string option"
  arg_filter_slug_equals :: "string option"

record QueryResponse =
  query_results :: "PostProps list"
  query_next_cursor :: "string option"

record ListArgs =
  arg_block_id :: string
  arg_list_page_size :: nat
  arg_list_start_cursor :: "string option"

record ListResponse =
  list_results :: "json list"
  list_next_cursor :: "string option"

text \<open>
  The surroundings of the module. \<open>isDev\<close> is the constant of that name. The content
  service is outside the repository: the outcome of a request is given by the number of
  requests made before it and by its arguments. \<open>Date.now()\<close> is given by the number of
  times the clock has been read before. \<open>getTime\<close> parses a date string.
\<close>

record Env =
  isDev :: bool
  databases_query :: "nat \<Rightarrow> QueryArgs \<Rightarrow> QueryResponse settled"
  pages_retrieve :: "nat \<Rightarrow> string \<Rightarrow> PostProps settled"
  blocks_children_list :: "nat \<Rightarrow> ListArgs \<Rightarrow> ListResponse settled"
  clock :: "nat \<Rightarrow> int"
  date_getTime :: "string \<Rightarrow> int option"

text \<open>
  The state: the map \<open>cache\<close>, the number of requests sent to the content service and
  the number of clock reads.
\<close>

record World =
  cache :: "string \<Rightarrow> CacheEntry option"
  fetches :: nat
  clock_reads :: nat

definition Date_now :: "Env \<Rightarrow> World \<Rightarrow> int \<times> World" where
  "Date_now env w = (clock env (clock_reads w), w\<lparr>clock_reads := Suc (clock_reads w)\<rparr>)"

definition getCached :: "Env \<Rightarrow> string \<Rightarrow> World \<Rightarrow> cval \<times> World" where
  "getCached env key w =
     (if \<not> isDev env then (Null, w)
      else
        (case cache w key of
           None \<Rightarrow> (Null, w)
         | Some entry \<Rightarrow>
             (case Date_now env w of
                (now, w') \<Rightarrow>
                  if now - entry_timestamp entry > CACHE_TTL_MS then
                    (Null, w'\<lparr>cache := (cache w')(key := None)\<rparr>)
                  else (entry_data entry, w'))))"

definition setCache :: "Env \<Rightarrow> string \<Rightarrow> cval \<Rightarrow> World \<Rightarrow> World" where
  "setCache env key d w =
     (if \<not> isDev env then w
      else
        (case Date_now env w of
           (now, w') \<Rightarrow>
             w'\<lparr>cache := (cache w')(key \<mapsto> \<lparr>entry_data = d, entry_timestamp = now\<rparr>)\<rparr>))"

text \<open>The three requests, as operations on the state: each one counts as a fetch.\<close>

definition query_request :: "Env \<Rightarrow> QueryArgs \<Rightarrow> World \<Rightarrow> QueryResponse settled \<times> World" where
  "query_request env args w = (databases_query env (fetches w) args, w\<lparr>fetches := Suc (fetches w)\<rparr>)"

definition retrieve_request :: "Env \<Rightarrow> string \<Rightarrow> World \<Rightarrow> PostProps settled \<times> World" where
  "retrieve_request env page_id w =
     (pages_retrieve env (fetches w) page_id, w\<lparr>fetches := Suc (fetches w)\<rparr>)"

definition list_request :: "Env \<Rightarrow> ListArgs \<Rightarrow> World \<Rightarrow> ListResponse settled \<times> World" where
  "list_request env args w =
     (blocks_children_list env (fetches w) args, w\<lparr>fetches := Suc (fetches w)\<rparr>)"

text \<open>
  The \<open>do ... while (startCursor != null)\<close> loop of \<open>getDatabase\<close>. It runs for as long as
  the service hands out cursors, so it need not end: \<open>None\<close> is the run that does not
  return. An error that \<open>withRetry\<close> throws ends the loop.
\<close>

partial_function (option) query_pages ::
  "Env \<Rightarrow> string \<Rightarrow> string option \<Rightarrow> PostProps list \<Rightarrow> World
   \<Rightarrow> ((js_error + PostProps list) \<times> World) option" where
  "query_pages env databaseId startCursor fetched w =
     (case withRetry
             (query_request env
                \<lparr>arg_database_id = databaseId, arg_page_size = 100,
                 arg_start_cursor = startCursor, arg_filter_slug_equals = None\<rparr>) w of
        (Inl error, w') \<Rightarrow> Some (Inl error, w')
      | (Inr response, w') \<Rightarrow>
          (case query_next_cursor response of
             None \<Rightarrow> Some (Inr (fetched @ query_results response), w')
           | Some cursor \<Rightarrow>
               query_pages env databaseId (Some cursor) (fetched @ query_results response) w'))"

text \<open>
  \<open>getDatabase\<close>. The comparator of the sort cannot throw on the filtered records; the
  model still has the branch (\<open>type_error\<close>).
\<close>

definition type_error :: js_error where
  "type_error =
     \<lparr>err_code = None, err_status = None,
      err_message = Some ''Cannot read properties of null''\<rparr>"

definition getDatabase ::
  "Env \<Rightarrow> string \<Rightarrow> bool \<Rightarrow> World \<Rightarrow> ((js_error + cval) \<times> World) option" where
  "getDatabase env databaseId includeUnpublished w =
     (let cacheKey = ''database:'' @ databaseId @ '':''
            @ (if includeUnpublished then ''true'' else ''false'')
      in case getCached env cacheKey w of
           (cached, w1) \<Rightarrow>
             if truthy_cval cached then Some (Inr cached, w1)
             else
               (case query_pages env databaseId None [] w1 of
                  None \<Rightarrow> None
                | Some (Inl error, w2) \<Rightarrow> Some (Inl error, w2)
                | Some (Inr fetched, w2) \<Rightarrow>
                    (case filtered (date_getTime env) includeUnpublished fetched of
                       None \<Rightarrow> Some (Inl type_error, w2)
                     | Some posts \<Rightarrow>
                         Some (Inr (PostList posts), setCache env cacheKey (PostList posts) w2))))"

text \<open>
  \<open>getPostBySlug\<close>. \<open>isValid\<close> reads the properties through \<open>?.\<close>; on a record that has
  them it is the completeness test of \<open>getDatabase\<close>.
\<close>

definition isValid :: "PostProps \<Rightarrow> bool" where
  "isValid post \<longleftrightarrow>
     date (Date (properties post)) \<noteq> None \<and>
     length (rich_text (Description (properties post))) > 0 \<and>
     length (rich_text (Slug (properties post))) > 0 \<and>
     length (title (Page (properties post))) > 0 \<and>
     length (people (Authors (properties post))) > 0"

definition getPostBySlug :: "Env \<Rightarrow> string \<Rightarrow> string \<Rightarrow> World \<Rightarrow> (js_error + cval) \<times> World" where
  "getPostBySlug env databaseId slug_text w =
     (let cacheKey = ''post-by-slug:'' @ databaseId @ '':'' @ slug_text
      in case getCached env cacheKey w of
           (cached, w1) \<Rightarrow>
             if cached \<noteq> Null then (Inr cached, w1)
             else
               (case withRetry
                       (query_request env
                          \<lparr>arg_database_id = databaseId, arg_page_size = 1,
                           arg_start_cursor = None,
                           arg_filter_slug_equals = Some slug_text\<rparr>) w1 of
                  (Inl error, w2) \<Rightarrow> (Inl error, w2)
                | (Inr response, w2) \<Rightarrow>
                    (case query_results response of
                       [] \<Rightarrow> (Inr Null, setCache env cacheKey Null w2)
                     | post # rest \<Rightarrow>
                         if \<not> isValid post then (Inr Null, setCache env cacheKey Null w2)
                         else (Inr (APost post), setCache env cacheKey (APost post) w2))))"

text \<open>\<open>getPage\<close>\<close>

definition getPage :: "Env \<Rightarrow> string \<Rightarrow> World \<Rightarrow> (js_error + cval) \<times> World" where
  "getPage env pageId w =
     (let cacheKey = ''page:'' @ pageId
      in case getCached env cacheKey w of
           (cached, w1) \<Rightarrow>
             if truthy_cval cached then (Inr cached, w1)
             else
               (case withRetry (retrieve_request env pageId) w1 of
                  (Inl error, w2) \<Rightarrow> (Inl error, w2)
                | (Inr response, w2) \<Rightarrow>
                    (Inr (APost response), setCache env cacheKey (APost response) w2)))"

text \<open>\<open>getBlocks\<close>, with the same loop as \<open>getDatabase\<close>.\<close>

partial_function (option) list_pages ::
  "Env \<Rightarrow> string \<Rightarrow> string option \<Rightarrow> json list \<Rightarrow> World
   \<Rightarrow> ((js_error + json list) \<times> World) option" where
  "list_pages env blockId startCursor fetched w =
     (case withRetry
             (list_request env
                \<lparr>arg_block_id = blockId, arg_list_page_size = 100,
                 arg_list_start_cursor = startCursor\<rparr>) w of
        (Inl error, w') \<Rightarrow> Some (Inl error, w')
      | (Inr response, w') \<Rightarrow>
          (case list_next_cursor response of
             None \<Rightarrow> Some (Inr (fetched @ list_results response), w')
           | Some cursor \<Rightarrow>
               list_pages env blockId (Some cursor) (fetched @ list_results response) w'))"

definition getBlocks :: "Env \<Rightarrow> string \<Rightarrow> World \<Rightarrow> ((js_error + cval) \<times> World) option" where
  "getBlocks env blockId w =
     (let cacheKey = ''blocks:'' @ blockId
      in case getCached env cacheKey w of
           (cached, w1) \<Rightarrow>
             if truthy_cval cached then Some (Inr cached, w1)
             else
               (case list_pages env blockId None [] w1 of
                  None \<Rightarrow> None
                | Some (Inl error, w2) \<Rightarrow> Some (Inl error, w2)
                | Some (Inr fetched, w2) \<Rightarrow>
                    Some (Inr (BlockList fetched), setCache env cacheKey (BlockList fetched) w2)))"

text \<open>
  An operation is a request when each invocation counts as one fetch and leaves the
  cache and the clock alone.
\<close>

definition is_request :: "(World \<Rightarrow> 'a settled \<times> World) \<Rightarrow> bool" where
  "is_request fn \<longleftrightarrow>
     (\<forall>w. fetches (snd (fn w)) = Suc (fetches w) \<and> cache (snd (fn w)) = cache w
          \<and> clock_reads (snd (fn w)) = clock_reads w)"

text \<open>
  An example of the surroundings: a content service that answers at once, holds the
  example records and applies the slug filter of a query; a clock that advances by one
  millisecond per reading from \<open>1000\<close>. \<open>example_env True\<close> runs in development mode,
  \<open>example_env False\<close> does not. \<open>fresh_world\<close> is the state at start-up.
\<close>

definition example_env :: "bool \<Rightarrow> Env" where
  "example_env dev =
     \<lparr>isDev = dev,
      databases_query = (\<lambda>n args.
        Resolved
          \<lparr>query_results =
             (case arg_filter_slug_equals args of
                None \<Rightarrow> example_results
              | Some s \<Rightarrow> filter (\<lambda>r. first_slug r = Some s) example_results),
           query_next_cursor = None\<rparr>),
      pages_retrieve = (\<lambda>n page_id. Resolved (example_post ''first'' ''2024-01-01'' True)),
      blocks_children_list = (\<lambda>n args.
        Resolved \<lparr>list_results = [example_block], list_next_cursor = None\<rparr>),
      clock = (\<lambda>n. 1000 + int n),
      date_getTime = example_getTime\<rparr>"

definition fresh_world :: World where
  "fresh_world = \<lparr>cache = Map.empty, fetches = 0, clock_reads = 0\<rparr>"

text \<open>
  A state whose cache already holds a stale entry under the key of
  \<open>getDatabase("blog")\<close>.
\<close>

definition stale_world :: World where
  "stale_world =
     \<lparr>cache = [''database:blog:false'' \<mapsto> \<lparr>entry_data = PostList [], entry_timestamp = 1000\<rparr>],
      fetches = 0, clock_reads = 0\<rparr>"

section \<open>Properties of list grouping\<close>

lemma ungroup_append: "ungroup (gs @ hs) = ungroup gs @ ungroup hs"
  by (induction gs rule: ungroup.induct) simp_all

text \<open>
  Loop invariant: the blocks already emitted, followed by the members of the list under
  construction, are the blocks read so far.
\<close>

lemma group_step_flat:
  "ungroup (fst (group_step st b)) @ pending (snd (group_step st b))
     = ungroup (fst st) @ pending (snd st) @ [b]"
  by (cases st) (simp add: group_step_def pending_def ungroup_append Let_def split: option.splits)

lemma group_loop_flat:
  "ungroup (fst (group_loop st bs)) @ pending (snd (group_loop st bs))
     = ungroup (fst st) @ pending (snd st) @ bs"
proof (induction bs arbitrary: st)
  case Nil
  show ?case by simp
next
  case (Cons b bs)
  show ?case
    using Cons.IH [of "group_step st b"] group_step_flat [of st b] by simp
qed

text \<open>
  Claim C1 says that a run of list items breaks where the list kind changes, so that
  \<open>[p1, bullet1, bullet2, number1, p2]\<close> gives a \<open>ul\<close> list of the two bulleted items
  followed by an \<open>ol\<close> list of the numbered one. The code opens a list only when
  \<open>currList\<close> is \<open>null\<close> and never compares the kind of a later item with the kind
  of the open list: on that input it returns one \<open>ul\<close> list holding all three items.
\<close>

theorem groupListBlocks_merges_adjacent_kinds:
  "groupListBlocks (Some
     [\<lparr>block_id = ''p1'', block_type = ''paragraph''\<rparr>,
      \<lparr>block_id = ''bullet1'', block_type = ''bulleted_list_item''\<rparr>,
      \<lparr>block_id = ''bullet2'', block_type = ''bulleted_list_item''\<rparr>,
      \<lparr>block_id = ''number1'', block_type = ''numbered_list_item''\<rparr>,
      \<lparr>block_id = ''p2'', block_type = ''paragraph''\<rparr>])
   = [Blk \<lparr>block_id = ''p1'', block_type = ''paragraph''\<rparr>,
      Lst \<lparr>list_id = ''bullet1'', list_type = ul,
           items = [\<lparr>block_id = ''bullet1'', block_type = ''bulleted_list_item''\<rparr>,
                    \<lparr>block_id = ''bullet2'', block_type = ''bulleted_list_item''\<rparr>,
                    \<lparr>block_id = ''number1'', block_type = ''numbered_list_item''\<rparr>]\<rparr>,
      Blk \<lparr>block_id = ''p2'', block_type = ''paragraph''\<rparr>]"
  by (simp add: groupListBlocks_def group_step_def is_list_item_def)

text \<open>
  Claim C9: \<open>groupListBlocks\<close> loses and duplicates nothing. Writing the result out in
  order, each \<open>ListBlock\<close> replaced by its \<open>items\<close>, gives back the input sequence; a
  \<open>null\<close> input gives the empty result.
\<close>

theorem groupListBlocks_ungroup:
  "ungroup (groupListBlocks (Some bs)) = bs \<and> groupListBlocks None = []"
proof -
  obtain u c where st: "group_loop ([], None) bs = (u, c)"
    by (cases "group_loop ([], None) bs")
  have "ungroup u @ pending c = bs"
    using group_loop_flat [of "([], None)" bs] st by (simp add: pending_def)
  then have "ungroup (groupListBlocks (Some bs)) = bs"
    by (cases c) (simp_all add: groupListBlocks_def st pending_def ungroup_append)
  moreover have "groupListBlocks None = []"
    by (simp add: groupListBlocks_def)
  ultimately show ?thesis
    by simp
qed
section \<open>Properties of the minimizer\<close>

lemma source_not_inherited: "k \<in> set source_names \<Longrightarrow> k \<notin> set object_prototype_names"
  by (auto simp: source_names_def object_prototype_names_def)

lemma get_source: "is_object v \<Longrightarrow> k \<in> set source_names \<Longrightarrow> get v k = Some (field v k)"
  by (cases v) (auto simp: field_def source_not_inherited split: option.splits)

lemma get_Some_object: "get v k = Some x \<Longrightarrow> is_object v"
  by (cases v) simp_all

lemma get_Some_field: "get v k = Some x \<Longrightarrow> field v k = x"
  by (simp add: field_def)

lemma some_truthy_eq:
  "is_object a \<Longrightarrow> set ks \<subseteq> set source_names \<Longrightarrow>
   some_truthy a ks = Some (list_ex (\<lambda>k. truthy (field a k)) ks)"
  by (induction ks) (simp_all add: get_source)

lemma in_source [simp]:
  "''plain_text'' \<in> set source_names" "''annotations'' \<in> set source_names"
  "''text'' \<in> set source_names" "''href'' \<in> set source_names"
  "''type'' \<in> set source_names" "''bold'' \<in> set source_names"
  "''italic'' \<in> set source_names" "''strikethrough'' \<in> set source_names"
  "''underline'' \<in> set source_names" "''code'' \<in> set source_names"
  "''color'' \<in> set source_names" "''content'' \<in> set source_names"
  "''link'' \<in> set source_names" "''url'' \<in> set source_names"
  by (simp_all add: source_names_def)

lemma hasFormatting_eq:
  "truthy a \<longrightarrow> is_object a \<Longrightarrow> hasFormatting a = Some (styled a)"
  by (simp add: hasFormatting_def styled_def some_truthy_eq get_source)

lemma hasFormatting_Some: "hasFormatting a = Some b \<Longrightarrow> (truthy a \<longrightarrow> is_object a) \<and> b = styled a"
  apply (cases "truthy a")
   apply (cases "is_object a")
    apply (simp add: hasFormatting_eq)
   apply (cases a; simp add: hasFormatting_def)
  apply (simp add: hasFormatting_def styled_def)
  done

lemma styled_truthy: "styled a \<Longrightarrow> truthy a"
  by (simp add: styled_def)

lemma minimizeSpan_eq:
  assumes "span_ok t"
  shows "minimizeSpan t = Some (minimized_span t)"
proof -
  let ?a = "field t ''annotations''" and ?tx = "field t ''text''"
  have t: "is_object t" and a: "truthy ?a \<longrightarrow> is_object ?a"
    and tx: "truthy ?tx \<longrightarrow> is_object ?tx"
    and l: "truthy ?tx \<longrightarrow> truthy (field ?tx ''link'') \<longrightarrow> is_object (field ?tx ''link'')"
    using assms by (simp_all add: span_ok_def)
  have ann: "(if styled ?a then
       do {
         bold \<leftarrow> get ?a ''bold'';
         italic \<leftarrow> get ?a ''italic'';
         strikethrough \<leftarrow> get ?a ''strikethrough'';
         underline \<leftarrow> get ?a ''underline'';
         code \<leftarrow> get ?a ''code'';
         color \<leftarrow> get ?a ''color'';
         Some [(''annotations'', JObj
           [(''bold'', js_or bold (JBool False)),
            (''italic'', js_or italic (JBool False)),
            (''strikethrough'', js_or strikethrough (JBool False)),
            (''underline'', js_or underline (JBool False)),
            (''code'', js_or code (JBool False)),
            (''color'', js_or color (JStr ''default''))])]
       }
     else Some []) = Some (if styled ?a then [(''annotations'', annotations_obj ?a)] else [])"
    using a by (auto simp: get_source annotations_obj_def dest: styled_truthy)
  have tkey: "(if truthy ?tx then
       do {
         content \<leftarrow> get ?tx ''content'';
         keep \<leftarrow> (if truthy content then Some True
                  else map_option truthy (get ?tx ''link''));
         if keep then
           do {
             link \<leftarrow> get ?tx ''link'';
             link_key \<leftarrow>
               (if truthy link then
                  do { url \<leftarrow> get link ''url''; Some [(''link'', JObj [(''url'', url)])] }
                else Some []);
             Some [(''text'', JObj ((''content'', js_or content (JStr '''')) # link_key))]
           }
         else Some []
       }
     else Some []) = Some (if keeps_text ?tx then [(''text'', text_obj ?tx)] else [])"
    using tx l by (auto simp: get_source keeps_text_def text_obj_def)
  show ?thesis
    unfolding minimizeSpan_def
    by (simp add: get_source [OF t] hasFormatting_eq [OF a] ann tkey minimized_span_def)
qed

lemma minimizeSpan_Some:
  assumes "minimizeSpan t = Some m"
  shows "span_ok t"
proof -
  let ?a = "field t ''annotations''" and ?tx = "field t ''text''"
  from assms obtain p where "get t ''plain_text'' = Some p"
    by (auto simp: minimizeSpan_def bind_eq_Some_conv)
  then have t: "is_object t"
    by (rule get_Some_object)
  from assms obtain b where "hasFormatting ?a = Some b"
    by (auto simp: minimizeSpan_def get_source [OF t] bind_eq_Some_conv)
  then have a: "truthy ?a \<longrightarrow> is_object ?a"
    by (simp add: hasFormatting_Some)
  from assms obtain tk where tk: "(if truthy ?tx then
       do {
         content \<leftarrow> get ?tx ''content'';
         keep \<leftarrow> (if truthy content then Some True
                  else map_option truthy (get ?tx ''link''));
         if keep then
           do {
             link \<leftarrow> get ?tx ''link'';
             link_key \<leftarrow>
               (if truthy link then
                  do { url \<leftarrow> get link ''url''; Some [(''link'', JObj [(''url'', url)])] }
                else Some []);
             Some [(''text'', JObj ((''content'', js_or content (JStr '''')) # link_key))]
           }
         else Some []
       }
     else Some []) = Some tk"
    by (auto simp: minimizeSpan_def get_source [OF t] bind_eq_Some_conv)
  have tx: "truthy ?tx \<longrightarrow> is_object ?tx"
    using tk by (auto simp: bind_eq_Some_conv dest: get_Some_object)
  have l: "truthy ?tx \<longrightarrow> truthy (field ?tx ''link'') \<longrightarrow> is_object (field ?tx ''link'')"
  proof (intro impI)
    assume 1: "truthy ?tx" and 2: "truthy (field ?tx ''link'')"
    have o: "is_object ?tx"
      using tx 1 by simp
    show "is_object (field ?tx ''link'')"
      using tk 1 2 by (auto simp: get_source [OF o] bind_eq_Some_conv split: if_splits dest: get_Some_object)
  qed
  show ?thesis
    using t a tx l by (simp add: span_ok_def)
qed

lemma field_obj:
  "field (JObj kvs) k = (case map_of kvs k of Some v \<Rightarrow> v | None \<Rightarrow> JUndefined)"
  by (simp add: field_def split: option.splits)

lemma js_or_idem [simp]: "js_or (js_or x d) d = js_or x d"
  by (simp add: js_or_def)

lemma truthy_js_or_False [simp]: "truthy (js_or x (JBool False)) = truthy x"
  by (simp add: js_or_def)

lemma truthy_js_or: "truthy d \<Longrightarrow> truthy (js_or x d)"
  by (simp add: js_or_def)

lemma js_or_default: "js_or c (JStr ''default'') \<noteq> JStr ''default'' \<longleftrightarrow> truthy c \<and> c \<noteq> JStr ''default''"
  by (simp add: js_or_def)

lemma field_annotations_obj:
  "field (annotations_obj a) ''bold'' = js_or (field a ''bold'') (JBool False)"
  "field (annotations_obj a) ''italic'' = js_or (field a ''italic'') (JBool False)"
  "field (annotations_obj a) ''strikethrough'' = js_or (field a ''strikethrough'') (JBool False)"
  "field (annotations_obj a) ''underline'' = js_or (field a ''underline'') (JBool False)"
  "field (annotations_obj a) ''code'' = js_or (field a ''code'') (JBool False)"
  "field (annotations_obj a) ''color'' = js_or (field a ''color'') (JStr ''default'')"
  by (simp_all add: annotations_obj_def field_obj)

lemma styled_annotations_obj: "styled a \<Longrightarrow> styled (annotations_obj a)"
  by (simp add: styled_def field_annotations_obj js_or_default truthy_js_or)
    (simp add: annotations_obj_def)

lemma annotations_obj_idem: "annotations_obj (annotations_obj a) = annotations_obj a"
  by (simp add: field_annotations_obj annotations_obj_def [of "annotations_obj a"])
    (simp add: annotations_obj_def)

lemma field_text_obj:
  "field (text_obj tx) ''content'' = js_or (field tx ''content'') (JStr '''')"
  "field (text_obj tx) ''link'' =
     (if truthy (field tx ''link'') then JObj [(''url'', field (field tx ''link'') ''url'')]
      else JUndefined)"
  by (simp_all add: text_obj_def field_obj)

lemma keeps_text_obj: "keeps_text tx \<Longrightarrow> keeps_text (text_obj tx)"
  by (auto simp: keeps_text_def field_text_obj js_or_def) (simp_all add: text_obj_def)

lemma text_obj_idem: "text_obj (text_obj tx) = text_obj tx"
  by (simp add: field_text_obj text_obj_def [of "text_obj tx"] field_obj)
    (simp add: text_obj_def)

lemma field_minimized_span:
  "field (minimized_span t) ''plain_text'' = field t ''plain_text''"
  "field (minimized_span t) ''type'' = js_or (field t ''type'') (JStr ''text'')"
  "field (minimized_span t) ''annotations'' =
     (if styled (field t ''annotations'') then annotations_obj (field t ''annotations'')
      else JUndefined)"
  "field (minimized_span t) ''text'' =
     (if keeps_text (field t ''text'') then text_obj (field t ''text'') else JUndefined)"
  "field (minimized_span t) ''href'' =
     (if truthy (field t ''href'') then field t ''href'' else JUndefined)"
  by (simp_all add: minimized_span_def field_obj)

lemma styled_undefined [simp]: "\<not> styled JUndefined" "\<not> keeps_text JUndefined"
  by (simp_all add: styled_def keeps_text_def)

lemma minimized_span_idem: "minimized_span (minimized_span t) = minimized_span t"
proof -
  let ?a = "field t ''annotations''" and ?tx = "field t ''text''" and ?h = "field t ''href''"
  have a: "styled (field (minimized_span t) ''annotations'') = styled ?a"
    by (simp add: field_minimized_span styled_annotations_obj)
  have a': "styled ?a \<Longrightarrow>
      annotations_obj (field (minimized_span t) ''annotations'') = annotations_obj ?a"
    by (simp add: field_minimized_span annotations_obj_idem)
  have x: "keeps_text (field (minimized_span t) ''text'') = keeps_text ?tx"
    by (simp add: field_minimized_span keeps_text_obj)
  have x': "keeps_text ?tx \<Longrightarrow> text_obj (field (minimized_span t) ''text'') = text_obj ?tx"
    by (simp add: field_minimized_span text_obj_idem)
  have h: "truthy (field (minimized_span t) ''href'') = truthy ?h"
    by (simp add: field_minimized_span)
  have h': "truthy ?h \<Longrightarrow> field (minimized_span t) ''href'' = ?h"
    by (simp add: field_minimized_span)
  have p: "field (minimized_span t) ''plain_text'' = field t ''plain_text''"
    and ty: "js_or (field (minimized_span t) ''type'') (JStr ''text'')
      = js_or (field t ''type'') (JStr ''text'')"
    by (simp_all add: field_minimized_span)
  show ?thesis
    unfolding minimized_span_def [of "minimized_span t"] a x h p ty
    using a' x' h' by (simp add: minimized_span_def [of t])
qed

lemma is_object_objs [simp]:
  "is_object (annotations_obj a)" "is_object (text_obj tx)" "is_object (minimized_span t)"
  by (simp_all add: annotations_obj_def text_obj_def minimized_span_def)

lemma span_ok_minimized: "span_ok (minimized_span t)"
  by (simp add: span_ok_def field_minimized_span field_text_obj)

lemma minimizeSpan_idem: "minimizeSpan t = Some m \<Longrightarrow> minimizeSpan m = Some m"
proof -
  assume r: "minimizeSpan t = Some m"
  then have "m = minimized_span t"
    using minimizeSpan_eq [OF minimizeSpan_Some [OF r]] by simp
  then show ?thesis
    using minimizeSpan_eq [OF span_ok_minimized [of t]] minimized_span_idem [of t] by simp
qed

lemma example_span_minimized:
  "minimizeRichText (JArr [example_span])
     = Some (JArr [JObj [(''plain_text'', JStr ''hi''), (''type'', JStr ''text''),
                         (''text'', JObj [(''content'', JStr ''hi'')])]])"
  by (simp add: minimizeRichText_def minimizeSpan_def example_span_def hasFormatting_def
      js_or_def object_prototype_names_def)

lemma those_map_None: "x \<in> set xs \<Longrightarrow> f x = None \<Longrightarrow> those (map f xs) = None"
  by (induction xs) (auto split: option.splits)

lemma those_map_Some_eq: "those (map (\<lambda>x. Some (g x)) xs) = Some (map g xs)"
  by (induction xs) simp_all

text \<open>
  On an array, \<open>minimizeRichText\<close> returns exactly when every span is well formed, and
  then each span is replaced by the object the callback builds for it.
\<close>

lemma minimizeRichText_array:
  "minimizeRichText (JArr spans)
     = (if list_all span_ok spans then Some (JArr (map minimized_span spans)) else None)"
proof (cases "list_all span_ok spans")
  case True
  then have eq: "map minimizeSpan spans = map (\<lambda>t. Some (minimized_span t)) spans"
    by (simp add: list_all_iff minimizeSpan_eq)
  show ?thesis
    by (simp add: minimizeRichText_def eq those_map_Some_eq True)
next
  case False
  then obtain t where t: "t \<in> set spans" and "\<not> span_ok t"
    by (auto simp: list_all_iff)
  then have "minimizeSpan t = None"
    using minimizeSpan_Some [of t] by (cases "minimizeSpan t") auto
  then show ?thesis
    using False those_map_None [OF t] by (simp add: minimizeRichText_def)
qed

text \<open>
  Claim C7: for every array of well-formed spans, \<open>minimizeRichText\<close> returns the array
  in which each span has become the object written out below. It always has
  \<open>plain_text\<close> as in the span and the \<open>type\<close> tag (\<open>"text"\<close> when the span has
  none). It has an \<open>annotations\<close> object, holding the five flags (\<open>false\<close> when not
  set) and the color (\<open>"default"\<close> when not set), exactly when the span carries
  formatting: a flag is set, or the color is set and is not \<open>"default"\<close>. It has a
  \<open>text\<close> object, holding the content (\<open>""\<close> when there is none), exactly when the
  span's \<open>text\<close> has content or a link, and that object has a \<open>link\<close> with the url
  exactly when the link is there. It has \<open>href\<close>, unchanged, exactly when the span
  has one. There are no other keys. On an array with a span that is not well formed no
  value is returned: the callback throws (a \<open>null\<close> span), or the span holds a string,
  number or boolean where the code reads properties, which is outside the model.
\<close>

theorem minimizeRichText_spans:
  "(list_all span_ok spans \<longrightarrow>
      minimizeRichText (JArr spans) = Some (JArr (map (\<lambda>span.
        JObj
          ([(''plain_text'', field span ''plain_text''),
            (''type'', js_or (field span ''type'') (JStr ''text''))]
           @ (if styled (field span ''annotations'') then
                [(''annotations'', JObj
                   [(''bold'', js_or (field (field span ''annotations'') ''bold'') (JBool False)),
                    (''italic'',
                       js_or (field (field span ''annotations'') ''italic'') (JBool False)),
                    (''strikethrough'',
                       js_or (field (field span ''annotations'') ''strikethrough'') (JBool False)),
                    (''underline'',
                       js_or (field (field span ''annotations'') ''underline'') (JBool False)),
                    (''code'', js_or (field (field span ''annotations'') ''code'') (JBool False)),
                    (''color'',
                       js_or (field (field span ''annotations'') ''color'') (JStr ''default''))])]
              else [])
           @ (if truthy (field span ''text'')
                 \<and> (truthy (field (field span ''text'') ''content'')
                      \<or> truthy (field (field span ''text'') ''link'')) then
                [(''text'', JObj
                   ((''content'', js_or (field (field span ''text'') ''content'') (JStr ''''))
                    # (if truthy (field (field span ''text'') ''link'') then
                         [(''link'', JObj
                            [(''url'', field (field (field span ''text'') ''link'') ''url'')])]
                       else [])))]
              else [])
           @ (if truthy (field span ''href'') then [(''href'', field span ''href'')] else [])))
        spans)))
   \<and> (\<not> list_all span_ok spans \<longrightarrow> minimizeRichText (JArr spans) = None)"
  by (simp add: minimizeRichText_array minimized_span_def annotations_obj_def text_obj_def
      keeps_text_def)

text \<open>
  Two spans of a page: the plain one of the specification's example (all flags
  \<open>false\<close>, color \<open>"default"\<close>) and a bold red link.
\<close>

lemma example_link_span_minimized:
  "minimizeRichText (JArr [example_span, example_link_span])
     = Some (JArr
        [JObj [(''plain_text'', JStr ''hi''), (''type'', JStr ''text''),
               (''text'', JObj [(''content'', JStr ''hi'')])],
         JObj [(''plain_text'', JStr ''docs''), (''type'', JStr ''text''),
               (''annotations'', JObj
                  [(''bold'', JBool True), (''italic'', JBool False),
                   (''strikethrough'', JBool False), (''underline'', JBool False),
                   (''code'', JBool False), (''color'', JStr ''red'')]),
               (''text'', JObj [(''content'', JStr ''docs''),
                                (''link'', JObj [(''url'', JStr ''https://example.com'')])]),
               (''href'', JStr ''https://example.com'')]])"
  by (simp add: minimizeRichText_def minimizeSpan_def example_span_def example_link_span_def
      hasFormatting_def js_or_def object_prototype_names_def)

lemma example_spans_ok: "list_all span_ok [example_span, example_link_span]"
  by (simp add: span_ok_def field_def example_span_def example_link_span_def)

text \<open>
  The plain span loses its \<open>annotations\<close> key and its empty link; the bold red link
  keeps annotations, link and href. An array with a \<open>null\<close> span gives no value.
\<close>

theorem minimizeRichText_spans_witness:
  "list_all span_ok [example_span, example_link_span]
   \<and> minimizeRichText (JArr [example_span, example_link_span])
     = Some (JArr
        [JObj [(''plain_text'', JStr ''hi''), (''type'', JStr ''text''),
               (''text'', JObj [(''content'', JStr ''hi'')])],
         JObj [(''plain_text'', JStr ''docs''), (''type'', JStr ''text''),
               (''annotations'', JObj
                  [(''bold'', JBool True), (''italic'', JBool False),
                   (''strikethrough'', JBool False), (''underline'', JBool False),
                   (''code'', JBool False), (''color'', JStr ''red'')]),
               (''text'', JObj [(''content'', JStr ''docs''),
                                (''link'', JObj [(''url'', JStr ''https://example.com'')])]),
               (''href'', JStr ''https://example.com'')]])
   \<and> \<not> has_prop (JObj [(''plain_text'', JStr ''hi''), (''type'', JStr ''text''),
                        (''text'', JObj [(''content'', JStr ''hi'')])]) ''annotations''
   \<and> \<not> list_all span_ok [example_span, JNull]
   \<and> minimizeRichText (JArr [example_span, JNull]) = None"
  using minimizeRichText_spans [of "[example_span, example_link_span]"]
    minimizeRichText_spans [of "[example_span, JNull]"]
    example_spans_ok example_link_span_minimized
  by (simp add: span_ok_def field_def)

lemma minimizeBlock_payload:
  "minimizeBlock block =
     do {
       id \<leftarrow> get block ''id'';
       type \<leftarrow> get block ''type'';
       has_children \<leftarrow> get block ''has_children'';
       key \<leftarrow> to_key type;
       blockData \<leftarrow> get block key;
       p \<leftarrow> payload minimizeBlock type blockData;
       set_prop (JObj [(''id'', id), (''type'', type), (''has_children'', has_children)]) key p
     }"
  unfolding payload_def text_payload_def callout_payload_def media_payload_def
    code_payload_def embed_payload_def table_payload_def table_row_payload_def
    column_list_payload_def column_payload_def unknown_payload_def
  by (rule minimizeBlock.simps)

lemma in_source_names [simp]:
  "''id'' \<in> set source_names" "''has_children'' \<in> set source_names"
  "''children'' \<in> set source_names" "''icon'' \<in> set source_names"
  "''emoji'' \<in> set source_names" "''external'' \<in> set source_names"
  "''file'' \<in> set source_names" "''expiry_time'' \<in> set source_names"
  "''caption'' \<in> set source_names" "''language'' \<in> set source_names"
  "''has_column_header'' \<in> set source_names" "''has_row_header'' \<in> set source_names"
  "''cells'' \<in> set source_names" "''column'' \<in> set source_names"
  by (simp_all add: source_names_def)

lemma get_obj:
  "k \<in> set source_names \<Longrightarrow>
   get (JObj kvs) k = Some (case map_of kvs k of Some v \<Rightarrow> v | None \<Rightarrow> JUndefined)"
  by (simp add: source_not_inherited split: option.splits)

lemma stable_onD: "stable_on f xs \<Longrightarrow> x \<in> set xs \<Longrightarrow> f x = Some y \<Longrightarrow> f y = Some y"
  by (auto simp: stable_on_def list_all_iff split: option.splits)

lemma those_map_idem:
  "those (map f xs) = Some ys \<Longrightarrow> stable_on f xs \<Longrightarrow> those (map f ys) = Some ys"
proof (induction xs arbitrary: ys)
  case Nil
  then show ?case by simp
next
  case (Cons x xs)
  from Cons.prems(1) obtain y ys' where y: "f x = Some y"
    and ys': "those (map f xs) = Some ys'" and ys: "ys = y # ys'"
    by (auto split: option.splits)
  have "stable_on f xs"
    using Cons.prems(2) by (simp add: stable_on_def)
  then have "those (map f ys') = Some ys'"
    using Cons.IH [OF ys'] by simp
  moreover have "f y = Some y"
    using stable_onD [OF Cons.prems(2) _ y] by simp
  ultimately show ?case
    by (simp add: ys)
qed

lemma those_map_length: "those (map f xs) = Some ys \<Longrightarrow> length ys = length xs"
  by (induction xs arbitrary: ys) (auto split: option.splits)

lemma js_map_Some:
  "js_map f v = Some w \<Longrightarrow>
   \<exists>xs ys. v = JArr xs \<and> w = JArr ys \<and> those (map f xs) = Some ys \<and> length ys = length xs"
  by (cases v) (auto simp: js_map_def those_map_length)

lemma js_map_idem:
  assumes "js_map f v = Some w" and "stable_on f (elems v)"
  shows "js_map f w = Some w"
proof -
  from js_map_Some [OF assms(1)] obtain xs ys where v: "v = JArr xs" and w: "w = JArr ys"
    and m: "those (map f xs) = Some ys"
    by blast
  have "those (map f ys) = Some ys"
    using those_map_idem [OF m] assms(2) v by simp
  then show ?thesis
    by (simp add: w js_map_def)
qed

lemma js_map_nonempty: "js_map f v = Some w \<Longrightarrow> nonempty w = nonempty v"
  by (auto dest!: js_map_Some simp: nonempty_def)

lemma js_map_truthy: "js_map f v = Some w \<Longrightarrow> truthy w"
  by (auto dest!: js_map_Some)

lemma minimizeRichText_idem: "minimizeRichText x = Some y \<Longrightarrow> minimizeRichText y = Some y"
proof (cases x)
  case (JArr xs)
  assume r: "minimizeRichText x = Some y"
  then obtain ys where ys: "those (map minimizeSpan xs) = Some ys" and y: "y = JArr ys"
    using JArr by (auto simp: minimizeRichText_def)
  have "stable_on minimizeSpan xs"
    by (auto simp: stable_on_def list_all_iff minimizeSpan_idem split: option.splits)
  then show ?thesis
    using those_map_idem [OF ys] by (simp add: y minimizeRichText_def)
qed (auto simp: minimizeRichText_def)

lemma minimizeRichText_truthy: "minimizeRichText x = Some y \<Longrightarrow> truthy y = truthy x"
  by (cases x) (auto simp: minimizeRichText_def)

lemma minimizeRichText_nonempty: "minimizeRichText x = Some y \<Longrightarrow> nonempty y = nonempty x"
  by (cases x) (auto simp: minimizeRichText_def nonempty_def those_map_length)

lemma stable_on_rich: "stable_on minimizeRichText xs"
  by (auto simp: stable_on_def list_all_iff minimizeRichText_idem split: option.splits)

lemma spread_caption_stable: "spread_caption bd = Some cap \<Longrightarrow> caption_stable cap"
  by (auto simp: spread_caption_def caption_stable_def bind_eq_Some_conv
      minimizeRichText_idem minimizeRichText_nonempty split: if_splits)

lemma spread_caption_obj:
  assumes "caption_stable cap" and "map_of kvs ''caption'' = map_of cap ''caption''"
  shows "spread_caption (JObj kvs) = Some cap"
  using assms by (auto simp: caption_stable_def spread_caption_def source_not_inherited nonempty_def)

lemma spread_children_stable:
  assumes "spread_children f bd = Some ch" and "stable_on f (elems (field bd ''children''))"
  shows "children_stable f ch"
proof -
  from assms(1) obtain c b where c: "get bd ''children'' = Some c" and b: "nonempty c = Some b"
    and ch: "(if b then do { cs \<leftarrow> js_map f c; Some [(''children'', cs)] } else Some []) = Some ch"
    by (auto simp: spread_children_def bind_eq_Some_conv)
  show ?thesis
  proof (cases b)
    case True
    then obtain cs where cs: "js_map f c = Some cs" and ch': "ch = [(''children'', cs)]"
      using ch by (auto simp: bind_eq_Some_conv)
    have "stable_on f (elems c)"
      using assms(2) c by (simp add: field_def)
    then have "js_map f cs = Some cs"
      by (rule js_map_idem [OF cs])
    moreover have "nonempty cs = Some True"
      using js_map_nonempty [OF cs] b True by simp
    ultimately show ?thesis
      by (simp add: children_stable_def ch')
  next
    case False
    then show ?thesis
      using ch by (simp add: children_stable_def)
  qed
qed

lemma spread_children_obj:
  assumes "children_stable f ch" and "map_of kvs ''children'' = map_of ch ''children''"
  shows "spread_children f (JObj kvs) = Some ch"
  using assms by (auto simp: children_stable_def spread_children_def source_not_inherited nonempty_def)

lemma minimizeRichText_nil: "minimizeRichText (JArr []) = Some (JArr [])"
  by (simp add: minimizeRichText_def)

lemma js_map_nil: "js_map f (JArr []) = Some (JArr [])"
  by (simp add: js_map_def)

lemma text_payload_idem:
  assumes "text_payload f bd = Some p" and "stable_on f (elems (field bd ''children''))"
  shows "text_payload f p = Some p"
proof -
  from assms(1) obtain rt rt' ch where "get bd ''text'' = Some rt"
    and t': "minimizeRichText rt = Some rt'" and ch: "spread_children f bd = Some ch"
    and p: "p = JObj ((''text'', rt') # ch)"
    by (auto simp: text_payload_def bind_eq_Some_conv)
  have sc: "spread_children f p = Some ch"
    unfolding p by (rule spread_children_obj [OF spread_children_stable [OF ch assms(2)]]) simp
  have g: "get p ''text'' = Some rt'"
    by (simp add: p)
  show ?thesis
    unfolding text_payload_def g
    by (simp add: minimizeRichText_idem [OF t'] sc) (simp add: p)
qed

lemma callout_payload_idem:
  assumes "callout_payload f bd = Some p" and "stable_on f (elems (field bd ''children''))"
  shows "callout_payload f p = Some p"
proof -
  from assms(1) obtain rt rt' icon icon' ch where "get bd ''text'' = Some rt"
    and t': "minimizeRichText rt = Some rt'" and "get bd ''icon'' = Some icon"
    and i': "(if truthy icon then
            do {
              emoji \<leftarrow> get icon ''emoji'';
              icon_type \<leftarrow> get icon ''type'';
              Some (JObj [(''emoji'', emoji), (''type'', icon_type)])
            }
          else Some JUndefined) = Some icon'"
    and ch: "spread_children f bd = Some ch"
    and p: "p = JObj ([(''text'', rt'), (''icon'', icon')] @ ch)"
    by (auto simp: callout_payload_def bind_eq_Some_conv)
  have sc: "spread_children f p = Some ch"
    unfolding p by (rule spread_children_obj [OF spread_children_stable [OF ch assms(2)]]) simp
  have ic: "(if truthy icon' then
            do {
              emoji \<leftarrow> get icon' ''emoji'';
              icon_type \<leftarrow> get icon' ''type'';
              Some (JObj [(''emoji'', emoji), (''type'', icon_type)])
            }
          else Some JUndefined) = Some icon'"
    using i' by (auto simp: bind_eq_Some_conv split: if_splits)
  have g: "get p ''text'' = Some rt'" "get p ''icon'' = Some icon'"
    by (simp_all add: p)
  show ?thesis
    unfolding callout_payload_def g
    by (simp add: minimizeRichText_idem [OF t'] ic sc) (simp add: p)
qed

lemma media_payload_idem:
  assumes "media_payload bd = Some p"
  shows "media_payload p = Some p"
proof -
  from assms obtain mt src cap where "get bd ''type'' = Some mt"
    and src: "(if mt = JStr ''external'' then
            do {
              external \<leftarrow> get bd ''external'';
              url \<leftarrow> get external ''url'';
              Some [(''external'', JObj [(''url'', url)])]
            }
          else
            do {
              file \<leftarrow> get bd ''file'';
              url \<leftarrow> get file ''url'';
              expiry_time \<leftarrow> get file ''expiry_time'';
              Some [(''file'', JObj [(''url'', url), (''expiry_time'', expiry_time)])]
            }) = Some src"
    and cap: "spread_caption bd = Some cap"
    and p: "p = JObj ([(''type'', mt)] @ src @ cap)"
    by (auto simp: media_payload_def bind_eq_Some_conv)
  have sc: "spread_caption p = Some cap"
    unfolding p using src
    by (intro spread_caption_obj [OF spread_caption_stable [OF cap]])
      (auto simp: bind_eq_Some_conv split: if_splits)
  have g: "get p ''type'' = Some mt"
    by (simp add: p)
  have s: "(if mt = JStr ''external'' then
            do {
              external \<leftarrow> get p ''external'';
              url \<leftarrow> get external ''url'';
              Some [(''external'', JObj [(''url'', url)])]
            }
          else
            do {
              file \<leftarrow> get p ''file'';
              url \<leftarrow> get file ''url'';
              expiry_time \<leftarrow> get file ''expiry_time'';
              Some [(''file'', JObj [(''url'', url), (''expiry_time'', expiry_time)])]
            }) = Some src"
    using src by (auto simp: p bind_eq_Some_conv split: if_splits)
  show ?thesis
    unfolding media_payload_def g by (simp add: s sc) (simp add: p)
qed

lemma code_payload_idem:
  assumes "code_payload bd = Some p"
  shows "code_payload p = Some p"
proof -
  from assms obtain rt rt' language cap where "get bd ''text'' = Some rt"
    and t': "(if truthy rt then minimizeRichText rt else Some (JArr [])) = Some rt'"
    and "get bd ''language'' = Some language"
    and cap: "spread_caption bd = Some cap"
    and p: "p = JObj ([(''text'', rt'),
                       (''language'', js_or language (JStr ''plain text''))] @ cap)"
    by (auto simp: code_payload_def bind_eq_Some_conv)
  have sc: "spread_caption p = Some cap"
    unfolding p by (rule spread_caption_obj [OF spread_caption_stable [OF cap]]) simp
  have t'': "(if truthy rt' then minimizeRichText rt' else Some (JArr [])) = Some rt'"
    using t' by (auto simp: minimizeRichText_idem minimizeRichText_truthy minimizeRichText_nil
        split: if_splits)
  have g: "get p ''text'' = Some rt'"
    "get p ''language'' = Some (js_or language (JStr ''plain text''))"
    by (simp_all add: p)
  show ?thesis
    unfolding code_payload_def g by (simp add: t'' sc) (simp add: p)
qed

lemma embed_payload_idem:
  assumes "embed_payload bd = Some p"
  shows "embed_payload p = Some p"
proof -
  from assms obtain url cap where "get bd ''url'' = Some url"
    and cap: "spread_caption bd = Some cap"
    and p: "p = JObj ([(''url'', url)] @ cap)"
    by (auto simp: embed_payload_def bind_eq_Some_conv)
  have sc: "spread_caption p = Some cap"
    unfolding p by (rule spread_caption_obj [OF spread_caption_stable [OF cap]]) simp
  have g: "get p ''url'' = Some url"
    by (simp add: p)
  show ?thesis
    unfolding embed_payload_def g by (simp add: sc) (simp add: p)
qed

lemma table_payload_idem:
  assumes "table_payload f bd = Some p" and "stable_on f (elems (field bd ''children''))"
  shows "table_payload f p = Some p"
proof -
  from assms(1) obtain c r ch where "get bd ''has_column_header'' = Some c"
    and "get bd ''has_row_header'' = Some r" and ch: "spread_children f bd = Some ch"
    and p: "p = JObj ([(''has_column_header'', js_or c (JBool False)),
                       (''has_row_header'', js_or r (JBool False))] @ ch)"
    by (auto simp: table_payload_def bind_eq_Some_conv)
  have sc: "spread_children f p = Some ch"
    unfolding p by (rule spread_children_obj [OF spread_children_stable [OF ch assms(2)]]) simp
  have g: "get p ''has_column_header'' = Some (js_or c (JBool False))"
    "get p ''has_row_header'' = Some (js_or r (JBool False))"
    by (simp_all add: p)
  show ?thesis
    unfolding table_payload_def g by (simp add: sc) (simp add: p)
qed

lemma table_row_payload_idem:
  assumes "table_row_payload bd = Some p"
  shows "table_row_payload p = Some p"
proof -
  from assms obtain cells cells' where "get bd ''cells'' = Some cells"
    and c': "(if truthy cells then js_map minimizeRichText cells else Some (JArr [])) = Some cells'"
    and p: "p = JObj [(''cells'', cells')]"
    by (auto simp: table_row_payload_def bind_eq_Some_conv)
  have c'': "(if truthy cells' then js_map minimizeRichText cells' else Some (JArr []))
      = Some cells'"
    using c' by (auto simp: js_map_truthy js_map_idem stable_on_rich js_map_nil split: if_splits)
  have g: "get p ''cells'' = Some cells'"
    by (simp add: p)
  show ?thesis
    unfolding table_row_payload_def g by (simp add: c'') (simp add: p)
qed

lemma column_list_payload_idem:
  assumes "column_list_payload f bd = Some p" and "stable_on f (elems (field bd ''children''))"
  shows "column_list_payload f p = Some p"
proof -
  from assms(1) obtain c c' where c: "get bd ''children'' = Some c"
    and c': "(if truthy c then js_map f c else Some (JArr [])) = Some c'"
    and p: "p = JObj [(''children'', c')]"
    by (auto simp: column_list_payload_def bind_eq_Some_conv)
  have st: "stable_on f (elems c)"
    using assms(2) c by (simp add: field_def)
  have c'': "(if truthy c' then js_map f c' else Some (JArr [])) = Some c'"
    using c' st by (auto simp: js_map_truthy js_map_idem js_map_nil split: if_splits)
  have g: "get p ''children'' = Some c'"
    by (simp add: p)
  show ?thesis
    unfolding column_list_payload_def g by (simp add: c'') (simp add: p)
qed

lemma column_payload_idem:
  assumes "column_payload f bd = Some p" and "stable_on f (elems (field bd ''children''))"
    and "stable_on f (elems (field bd ''column''))"
  shows "column_payload f p = Some p"
proof -
  from assms(1) obtain col where col: "get bd ''column'' = Some col"
    and r: "(if truthy col then
         do { cs \<leftarrow> js_map f col; Some (JObj [(''column'', cs)]) }
       else
         do {
           children \<leftarrow> get bd ''children'';
           if truthy children then
             do { cs \<leftarrow> js_map f children; Some (JObj [(''children'', cs)]) }
           else Some (JObj [])
         }) = Some p"
    by (auto simp: column_payload_def bind_eq_Some_conv)
  show ?thesis
  proof (cases "truthy col")
    case True
    then obtain cs where cs: "js_map f col = Some cs" and p: "p = JObj [(''column'', cs)]"
      using r by (auto simp: bind_eq_Some_conv)
    have "stable_on f (elems col)"
      using assms(3) col by (simp add: field_def)
    then have "js_map f cs = Some cs"
      by (rule js_map_idem [OF cs])
    then show ?thesis
      using js_map_truthy [OF cs] by (simp add: column_payload_def p)
  next
    case False
    then obtain c where c: "get bd ''children'' = Some c"
      and r': "(if truthy c then
             do { cs \<leftarrow> js_map f c; Some (JObj [(''children'', cs)]) }
           else Some (JObj [])) = Some p"
      using r by (auto simp: bind_eq_Some_conv)
    show ?thesis
    proof (cases "truthy c")
      case True
      then obtain cs where cs: "js_map f c = Some cs" and p: "p = JObj [(''children'', cs)]"
        using r' by (auto simp: bind_eq_Some_conv)
      have "stable_on f (elems c)"
        using assms(2) c by (simp add: field_def)
      then have "js_map f cs = Some cs"
        by (rule js_map_idem [OF cs])
      then show ?thesis
        using js_map_truthy [OF cs]
        by (simp add: column_payload_def p object_prototype_names_def)
    next
      case False
      then show ?thesis
        using r' by (auto simp: column_payload_def object_prototype_names_def)
    qed
  qed
qed

lemma unknown_payload_idem:
  assumes "unknown_payload f bd = Some p" and "stable_on f (elems (field bd ''children''))"
  shows "unknown_payload f p = Some p"
proof (cases "truthy bd")
  case False
  then show ?thesis
    using assms(1) by (auto simp: unknown_payload_def object_prototype_names_def)
next
  case True
  then obtain rt where rt: "get bd ''text'' = Some rt"
    and r: "(if truthy rt then
            do {
              rt' \<leftarrow> minimizeRichText rt;
              children \<leftarrow> spread_children f bd;
              Some (JObj ((''text'', rt') # children))
            }
          else Some bd) = Some p"
    using assms(1) by (auto simp: unknown_payload_def bind_eq_Some_conv)
  show ?thesis
  proof (cases "truthy rt")
    case False
    then show ?thesis
      using r True rt by (simp add: unknown_payload_def)
  next
    case True
    then have tp: "text_payload f bd = Some p"
      using r rt by (simp add: text_payload_def)
    from r True obtain rt' ch where t': "minimizeRichText rt = Some rt'"
      and p: "p = JObj ((''text'', rt') # ch)"
      by (auto simp: bind_eq_Some_conv)
    have "truthy rt'"
      using minimizeRichText_truthy [OF t'] True by simp
    moreover have "get p ''text'' = Some rt'"
      by (simp add: p)
    moreover have "truthy p"
      by (simp add: p)
    ultimately show ?thesis
      using text_payload_idem [OF tp assms(2)]
      by (simp add: unknown_payload_def text_payload_def)
  qed
qed

lemma payload_idem:
  assumes "payload f t bd = Some p" and "stable_on f (elems (field bd ''children''))"
    and "stable_on f (elems (field bd ''column''))"
  shows "payload f t p = Some p"
proof -
  note idem = text_payload_idem [OF _ assms(2)] callout_payload_idem [OF _ assms(2)]
    media_payload_idem code_payload_idem embed_payload_idem
    table_payload_idem [OF _ assms(2)] table_row_payload_idem
    column_list_payload_idem [OF _ assms(2)] column_payload_idem [OF _ assms(2) assms(3)]
    unknown_payload_idem [OF _ assms(2)]
  show ?thesis
  proof (cases "t = JStr ''paragraph'' \<or> t = JStr ''heading_1'' \<or> t = JStr ''heading_2'' \<or> t = JStr ''heading_3''")
    case True
    with assms(1)  show ?thesis
      by (simp add: payload_def idem)
  next
    case n1: False
    show ?thesis
    proof (cases "t = JStr ''quote''")
      case True
      with assms(1) n1 show ?thesis
        by (simp add: payload_def idem)
    next
      case n2: False
      show ?thesis
      proof (cases "t = JStr ''bulleted_list_item'' \<or> t = JStr ''numbered_list_item''")
        case True
        with assms(1) n1 n2 show ?thesis
          by (simp add: payload_def idem)
      next
        case n3: False
        show ?thesis
        proof (cases "t = JStr ''callout''")
          case True
          with assms(1) n1 n2 n3 show ?thesis
            by (simp add: payload_def idem)
        next
          case n4: False
          show ?thesis
          proof (cases "t = JStr ''image'' \<or> t = JStr ''video''")
            case True
            with assms(1) n1 n2 n3 n4 show ?thesis
              by (simp add: payload_def idem)
          next
            case n5: False
            show ?thesis
            proof (cases "t = JStr ''code''")
              case True
              with assms(1) n1 n2 n3 n4 n5 show ?thesis
                by (simp add: payload_def idem)
            next
              case n6: False
              show ?thesis
              proof (cases "t = JStr ''divider''")
                case True
                with assms(1) n1 n2 n3 n4 n5 n6 show ?thesis
                  by (simp add: payload_def idem)
              next
                case n7: False
                show ?thesis
                proof (cases "t = JStr ''embed''")
                  case True
                  with assms(1) n1 n2 n3 n4 n5 n6 n7 show ?thesis
                    by (simp add: payload_def idem)
                next
                  case n8: False
                  show ?thesis
                  proof (cases "t = JStr ''table''")
                    case True
                    with assms(1) n1 n2 n3 n4 n5 n6 n7 n8 show ?thesis
                      by (simp add: payload_def idem)
                  next
                    case n9: False
                    show ?thesis
                    proof (cases "t = JStr ''table_row''")
                      case True
                      with assms(1) n1 n2 n3 n4 n5 n6 n7 n8 n9 show ?thesis
                        by (simp add: payload_def idem)
                    next
                      case n10: False
                      show ?thesis
                      proof (cases "t = JStr ''column_list''")
                        case True
                        with assms(1) n1 n2 n3 n4 n5 n6 n7 n8 n9 n10 show ?thesis
                          by (simp add: payload_def idem)
                      next
                        case n11: False
                        show ?thesis
                        proof (cases "t = JStr ''column''")
                          case True
                          with assms(1) n1 n2 n3 n4 n5 n6 n7 n8 n9 n10 n11 show ?thesis
                            by (simp add: payload_def idem)
                        next
                          case n12: False
                          show ?thesis
                            using assms(1) n1 n2 n3 n4 n5 n6 n7 n8 n9 n10 n11 n12 by (simp add: payload_def idem)
                        qed
                      qed
                    qed
                  qed
                qed
              qed
            qed
          qed
        qed
      qed
    qed
  qed
qed

lemma kid_size:
  assumes "get x key = Some bd" and "c \<in> set (elems (field bd k))"
  shows "size c < size x"
proof -
  from assms(2) obtain xs where xs: "field bd k = JArr xs" and c: "c \<in> set xs"
    by (cases "field bd k") auto
  have "get bd k = Some (JArr xs)"
    using xs by (auto simp: field_def split: option.splits)
  then show ?thesis
    using child_size [OF assms(1) _ c] by simp
qed

lemma unknown_type_tag:
  "payload f (JStr ''type'') (JStr ''type'') = None"
  by (simp add: payload_def unknown_payload_def)

lemma to_key_type: "to_key t = Some ''type'' \<Longrightarrow> t = JStr ''type''"
  by (cases t) (auto split: if_splits)

lemma set_prop_Some:
  "set_prop (JObj kvs) k v = Some y \<Longrightarrow> k \<noteq> ''__proto__'' \<and> y = JObj (AList.update k v kvs)"
  by (auto split: if_splits)

text \<open>Reading back the properties of the object \<open>minimized\<close> after \<open>minimized[type] = p\<close>.\<close>

lemma get_minimized:
  assumes "key \<noteq> ''type''"
  shows "get (JObj (AList.update key p [(''id'', a), (''type'', t), (''has_children'', h)])) ''id''
      = Some (if key = ''id'' then p else a)"
    and "get (JObj (AList.update key p [(''id'', a), (''type'', t), (''has_children'', h)])) ''type''
      = Some t"
    and "get (JObj (AList.update key p [(''id'', a), (''type'', t), (''has_children'', h)]))
        ''has_children''
      = Some (if key = ''has_children'' then p else h)"
    and "get (JObj (AList.update key p [(''id'', a), (''type'', t), (''has_children'', h)])) key
      = Some p"
  using assms by (simp_all add: update_conv')

lemma update_minimized:
  "AList.update key p
     [(''id'', if key = ''id'' then p else a), (''type'', t),
      (''has_children'', if key = ''has_children'' then p else h)]
   = AList.update key p [(''id'', a), (''type'', t), (''has_children'', h)]"
  by simp

text \<open>
  Claim C2: \<open>minimizeBlock\<close> is idempotent. Whenever it returns a block for a block
  tree, minimizing the returned block returns that same block, children and rich-text
  spans included. The proof is by induction on the size of the tree; the blocks under
  \<open>children\<close> and \<open>column\<close> are smaller than their parent.
\<close>

theorem minimizeBlock_idempotent:
  "minimizeBlock x = Some y \<Longrightarrow> minimizeBlock y = Some y"
proof (induction x arbitrary: y rule: measure_induct_rule [where f = size])
  case (less x)
  from less.prems obtain a t h key bd p where gt: "get x ''type'' = Some t"
    and k: "to_key t = Some key" and bd: "get x key = Some bd"
    and pl: "payload minimizeBlock t bd = Some p"
    and sp: "set_prop (JObj [(''id'', a), (''type'', t), (''has_children'', h)]) key p = Some y"
    by (subst (asm) minimizeBlock_payload) (auto simp: bind_eq_Some_conv)
  have stable: "stable_on minimizeBlock (elems (field bd k'))" for k'
    unfolding stable_on_def list_all_iff
  proof
    fix c
    assume "c \<in> set (elems (field bd k'))"
    then have "size c < size x"
      by (rule kid_size [OF bd])
    then show "case minimizeBlock c of None \<Rightarrow> True | Some d \<Rightarrow> minimizeBlock d = Some d"
      using less.IH [of c] by (simp split: option.splits)
  qed
  have p: "payload minimizeBlock t p = Some p"
    by (rule payload_idem [OF pl stable stable])
  have key: "key \<noteq> ''type''"
  proof
    assume "key = ''type''"
    then have "t = JStr ''type''" and "bd = t"
      using k gt bd by (simp_all add: to_key_type)
    then show False
      using pl unknown_type_tag by simp
  qed
  define kvs where "kvs = AList.update key p [(''id'', a), (''type'', t), (''has_children'', h)]"
  have y: "y = JObj kvs" and proto: "key \<noteq> ''__proto__''"
    using set_prop_Some [OF sp] by (simp_all add: kvs_def)
  have g: "get (JObj kvs) ''id'' = Some (if key = ''id'' then p else a)"
    "get (JObj kvs) ''type'' = Some t"
    "get (JObj kvs) ''has_children'' = Some (if key = ''has_children'' then p else h)"
    "get (JObj kvs) key = Some p"
    unfolding kvs_def by (rule get_minimized [OF key])+
  have u: "set_prop (JObj [(''id'', if key = ''id'' then p else a), (''type'', t),
        (''has_children'', if key = ''has_children'' then p else h)]) key p = Some (JObj kvs)"
    unfolding kvs_def using proto by (simp only: set_prop.simps if_False update_minimized)
  show ?case
    unfolding y by (subst minimizeBlock_payload) (simp add: g k p u del: get.simps set_prop.simps)
qed

lemma example_block_eval: "minimizeBlock example_block = Some example_block_minimized"
  by (simp add: example_block_def example_block_minimized_def minimizeBlock.simps
      example_span_minimized spread_children_def nonempty_def js_map_def
      minimizeRichText_nil source_not_inherited)

text \<open>
  On the example block the two runs give the same block, which differs from the input.
\<close>

theorem minimizeBlock_idempotent_witness:
  "minimizeBlock example_block = Some example_block_minimized
   \<and> minimizeBlock example_block_minimized = Some example_block_minimized
   \<and> example_block_minimized \<noteq> example_block"
  using minimizeBlock_idempotent [OF example_block_eval]
  by (simp add: example_block_eval) (simp add: example_block_def example_block_minimized_def)

section \<open>Properties of the collection query\<close>

lemma keep_post_eligible: "keep_post inc = eligible inc"
  by (auto simp: fun_eq_iff keep_post_def eligible_def complete_def)

lemma eligible_complete: "eligible inc r \<Longrightarrow> complete r"
  by (simp add: eligible_def)

lemma compare_dates_Some:
  "complete a \<Longrightarrow> complete b \<Longrightarrow> \<exists>v. compare_dates getTime a b = Some v"
  by (auto simp: compare_dates_def complete_def)

lemma js_insert_mset:
  assumes "complete x" and "list_all complete ys"
  shows "\<exists>zs. js_insert (compare_dates getTime) x ys = Some zs \<and> mset zs = add_mset x (mset ys)"
  using assms(2)
proof (induction ys)
  case Nil
  show ?case by simp
next
  case (Cons y ys)
  then obtain v where v: "compare_dates getTime x y = Some v"
    using compare_dates_Some [OF assms(1), of y getTime] by auto
  from Cons obtain zs where "js_insert (compare_dates getTime) x ys = Some zs"
    and "mset zs = add_mset x (mset ys)"
    by auto
  then show ?case
    by (auto simp: v)
qed

lemma js_sort_mset:
  assumes "list_all complete xs"
  shows "\<exists>ys. js_sort (compare_dates getTime) xs = Some ys \<and> mset ys = mset xs"
  using assms
proof (induction xs)
  case Nil
  show ?case by simp
next
  case (Cons x xs)
  then obtain ys where ys: "js_sort (compare_dates getTime) xs = Some ys"
    and m: "mset ys = mset xs"
    by auto
  have "set ys = set xs"
    using m by (rule mset_eq_setD)
  then have "list_all complete ys"
    using Cons.prems by (simp add: list_all_iff)
  from js_insert_mset [OF _ this, of x getTime] Cons.prems
  show ?case
    by (auto simp: ys m)
qed

lemma filtered_mset:
  "\<exists>ys. filtered getTime inc results = Some ys \<and> mset ys = mset (filter (eligible inc) results)"
proof -
  have "list_all complete (filter (eligible inc) results)"
    by (auto simp: list_all_iff intro: eligible_complete)
  from js_sort_mset [OF this, of getTime] show ?thesis
    by (simp add: filtered_def keep_post_eligible)
qed


lemma example_filtered:
  "filtered example_getTime False example_results
     = Some [example_post ''fourth'' ''2024-02-01'' True,
             example_post ''first'' ''2024-01-01'' True,
             example_post ''third'' ''2024-01-01'' True]"
  "filtered example_getTime True example_results
     = Some [example_post ''second'' ''2024-02-01'' False,
             example_post ''fourth'' ''2024-02-01'' True,
             example_post ''first'' ''2024-01-01'' True,
             example_post ''third'' ''2024-01-01'' True]"
  by (simp_all add: filtered_def keep_post_def example_results_def example_post_def
      example_draft_def compare_dates_def example_getTime_def)










lemma those_map_all:
  "those (map f xs) = (if list_all (\<lambda>x. f x \<noteq> None) xs then Some (map (\<lambda>x. the (f x)) xs) else None)"
  by (induction xs) (auto split: option.splits)

lemma first_slug_eq:
  "first_slug item
     = (if rich_text (Slug (properties item)) \<noteq> []
        then Some (plain_text (hd (rich_text (Slug (properties item))))) else None)"
  by (simp add: first_slug_def split: list.splits)

text \<open>
  Claim C10: \<open>mapDatabaseToPaths\<close> returns, for posts whose slug has at least one span,
  one \<open>params\<close> entry per post, in order, holding the plain text of the first span; the
  unguarded read is defined on them. It throws exactly when some post has no slug span.
  Every post that \<open>getDatabase\<close> returns is complete, so on its result the mapping is
  defined.
\<close>

theorem mapDatabaseToPaths_defined:
  "mapDatabaseToPaths database
     = (if list_all (\<lambda>item. rich_text (Slug (properties item)) \<noteq> []) database
        then Some (map (\<lambda>item.
               \<lparr>params = \<lparr>slug = plain_text (hd (rich_text (Slug (properties item))))\<rparr>\<rparr>)
               database)
        else None)
   \<and> (list_all complete database \<longrightarrow>
        mapDatabaseToPaths database
          = Some (map (\<lambda>item.
               \<lparr>params = \<lparr>slug = plain_text (hd (rich_text (Slug (properties item))))\<rparr>\<rparr>)
               database))
   \<and> (filtered getTime includeUnpublished results = Some database \<longrightarrow>
        mapDatabaseToPaths database
          = Some (map (\<lambda>item.
               \<lparr>params = \<lparr>slug = plain_text (hd (rich_text (Slug (properties item))))\<rparr>\<rparr>)
               database))"
proof -
  let ?ok = "\<lambda>item. rich_text (Slug (properties item)) \<noteq> []"
  let ?path = "\<lambda>item. \<lparr>params = \<lparr>slug = plain_text (hd (rich_text (Slug (properties item))))\<rparr>\<rparr>"
  have eq: "mapDatabaseToPaths db = (if list_all ?ok db then Some (map ?path db) else None)"
    for db :: "'a PostProps_scheme list"
    unfolding mapDatabaseToPaths_def those_map_all
    by (auto simp: first_slug_eq list_all_iff)
  have c: "list_all ?ok db" if "list_all complete db" for db :: "'a PostProps_scheme list"
    using that by (simp add: list_all_iff complete_def)
  have f: "list_all complete database"
    if "filtered getTime includeUnpublished results = Some database"
  proof -
    from filtered_mset [of getTime includeUnpublished results] that
    have "mset database = mset (filter (eligible includeUnpublished) results)"
      by auto
    then have "set database = set (filter (eligible includeUnpublished) results)"
      by (rule mset_eq_setD)
    then show ?thesis
      by (auto simp: list_all_iff intro: eligible_complete)
  qed
  show ?thesis
    using eq [of database] c [of database] f by simp
qed

text \<open>
  On the posts the example query returns the slugs come out in order; a record without
  a slug span makes the mapping throw.
\<close>

theorem mapDatabaseToPaths_defined_witness:
  "filtered example_getTime False example_results
     = Some [example_post ''fourth'' ''2024-02-01'' True,
             example_post ''first'' ''2024-01-01'' True,
             example_post ''third'' ''2024-01-01'' True]
   \<and> mapDatabaseToPaths
        [example_post ''fourth'' ''2024-02-01'' True,
         example_post ''first'' ''2024-01-01'' True,
         example_post ''third'' ''2024-01-01'' True]
     = Some [\<lparr>params = \<lparr>slug = ''fourth''\<rparr>\<rparr>, \<lparr>params = \<lparr>slug = ''first''\<rparr>\<rparr>,
             \<lparr>params = \<lparr>slug = ''third''\<rparr>\<rparr>]
   \<and> mapDatabaseToPaths
        [example_post ''first'' ''2024-01-01'' True,
         example_draft\<lparr>properties := (properties example_draft)\<lparr>Slug := \<lparr>rich_text = []\<rparr>\<rparr>\<rparr>]
     = None"
  using mapDatabaseToPaths_defined
      [of "[example_post ''fourth'' ''2024-02-01'' True,
            example_post ''first'' ''2024-01-01'' True,
            example_post ''third'' ''2024-01-01'' True]" example_getTime False example_results]
    mapDatabaseToPaths_defined
      [of "[example_post ''first'' ''2024-01-01'' True,
            example_draft\<lparr>properties := (properties example_draft)\<lparr>Slug := \<lparr>rich_text = []\<rparr>\<rparr>\<rparr>]"
        example_getTime False example_results]
  by (simp add: example_filtered) (simp add: example_post_def example_draft_def)

section \<open>Properties of the response cache\<close>

lemma is_request_requests:
  "is_request (query_request env args)" "is_request (retrieve_request env page_id)"
  "is_request (list_request env largs)"
  by (simp_all add: is_request_def query_request_def retrieve_request_def list_request_def)

lemma is_requestD:
  assumes "is_request fn" and "fn w = (p, w')"
  shows "fetches w' = Suc (fetches w) \<and> cache w' = cache w \<and> clock_reads w' = clock_reads w"
  using assms(1) [unfolded is_request_def, rule_format, of w] assms(2) by simp

lemma withRetry_loop_fetches:
  fixes w :: World
  assumes "is_request fn" and "attempt \<le> MAX_RETRIES"
  shows "fetches w < fetches (snd (withRetry_loop attempt lastError fn w))
     \<and> fetches (snd (withRetry_loop attempt lastError fn w)) + attempt \<le> fetches w + Suc MAX_RETRIES
     \<and> cache (snd (withRetry_loop attempt lastError fn w)) = cache w
     \<and> clock_reads (snd (withRetry_loop attempt lastError fn w)) = clock_reads w"
  using assms
proof (induction attempt lastError fn w rule: withRetry_loop.induct)
  case (1 attempt lastError fn w)
  note req = "1.prems"(1) and le = "1.prems"(2)
  obtain promise w' where fn: "fn w = (promise, w')"
    by (cases "fn w")
  have w': "fetches w' = Suc (fetches w)" "cache w' = cache w" "clock_reads w' = clock_reads w"
    using is_requestD [OF req fn] by simp_all
  show ?case
  proof (cases "withTimeout promise")
    case (Inr v)
    then show ?thesis
      using le fn w' by (subst (1 2 3 4) withRetry_loop.simps) simp
  next
    case (Inl error)
    show ?thesis
    proof (cases "\<not> isRetryableError error \<or> attempt = MAX_RETRIES")
      case True
      then show ?thesis
        using le fn w' Inl by (subst (1 2 3 4) withRetry_loop.simps) auto
    next
      case False
      then have "attempt + 1 \<le> MAX_RETRIES"
        using le by simp
      from "1.IH" [OF le fn [symmetric] Inl False req this]
      show ?thesis
        using le fn w' Inl False by (subst (1 2 3 4) withRetry_loop.simps) auto
    qed
  qed
qed

lemma withRetry_fetches:
  fixes w :: World
  assumes "is_request fn" and "withRetry fn w = (r, w')"
  shows "fetches w < fetches w'" and "fetches w' \<le> fetches w + Suc MAX_RETRIES"
    and "cache w' = cache w" and "clock_reads w' = clock_reads w"
  using withRetry_loop_fetches [OF assms(1), of 0 w undefined_error] assms(2)
  by (simp_all add: withRetry_def)

lemma query_pages_fetches:
  assumes "query_pages env databaseId startCursor fetched w = Some y"
  shows "fetches w < fetches (snd y) \<and> cache (snd y) = cache w
     \<and> clock_reads (snd y) = clock_reads w"
proof (rule query_pages.raw_induct
    [where P = "\<lambda>env databaseId startCursor fetched w y.
       fetches w < fetches (snd y) \<and> cache (snd y) = cache w
       \<and> clock_reads (snd y) = clock_reads w", OF _ assms])
  fix f :: "Env \<Rightarrow> string \<Rightarrow> string option \<Rightarrow> PostProps list \<Rightarrow> World
      \<Rightarrow> ((js_error + PostProps list) \<times> World) option"
  fix env databaseId startCursor fetched w y
  assume IH: "\<And>env databaseId startCursor fetched w y.
      f env databaseId startCursor fetched w = Some y \<Longrightarrow>
      fetches w < fetches (snd y) \<and> cache (snd y) = cache w
      \<and> clock_reads (snd y) = clock_reads w"
  let ?args = "\<lparr>arg_database_id = databaseId, arg_page_size = 100,
                 arg_start_cursor = startCursor, arg_filter_slug_equals = None\<rparr>"
  assume body: "(case withRetry (query_request env ?args) w of
        (Inl error, w') \<Rightarrow> Some (Inl error, w')
      | (Inr response, w') \<Rightarrow>
          (case query_next_cursor response of
             None \<Rightarrow> Some (Inr (fetched @ query_results response), w')
           | Some cursor \<Rightarrow>
               f env databaseId (Some cursor) (fetched @ query_results response) w')) = Some y"
  obtain r w1 where wr: "withRetry (query_request env ?args) w = (r, w1)"
    by (cases "withRetry (query_request env ?args) w")
  note step = withRetry_fetches [OF is_request_requests(1) wr]
  show "fetches w < fetches (snd y) \<and> cache (snd y) = cache w
     \<and> clock_reads (snd y) = clock_reads w"
  proof (cases r)
    case (Inl error)
    then show ?thesis
      using body wr step by auto
  next
    case (Inr response)
    show ?thesis
    proof (cases "query_next_cursor response")
      case None
      then show ?thesis
        using body wr step Inr by auto
    next
      case (Some cursor)
      then have "f env databaseId (Some cursor) (fetched @ query_results response) w1 = Some y"
        using body wr Inr by simp
      from IH [OF this] show ?thesis
        using step by simp
    qed
  qed
qed

lemma list_pages_fetches:
  assumes "list_pages env blockId startCursor fetched w = Some y"
  shows "fetches w < fetches (snd y) \<and> cache (snd y) = cache w
     \<and> clock_reads (snd y) = clock_reads w"
proof (rule list_pages.raw_induct
    [where P = "\<lambda>env blockId startCursor fetched w y.
       fetches w < fetches (snd y) \<and> cache (snd y) = cache w
       \<and> clock_reads (snd y) = clock_reads w", OF _ assms])
  fix f :: "Env \<Rightarrow> string \<Rightarrow> string option \<Rightarrow> json list \<Rightarrow> World
      \<Rightarrow> ((js_error + json list) \<times> World) option"
  fix env blockId startCursor fetched w y
  assume IH: "\<And>env blockId startCursor fetched w y.
      f env blockId startCursor fetched w = Some y \<Longrightarrow>
      fetches w < fetches (snd y) \<and> cache (snd y) = cache w
      \<and> clock_reads (snd y) = clock_reads w"
  let ?args = "\<lparr>arg_block_id = blockId, arg_list_page_size = 100,
                 arg_list_start_cursor = startCursor\<rparr>"
  assume body: "(case withRetry (list_request env ?args) w of
        (Inl error, w') \<Rightarrow> Some (Inl error, w')
      | (Inr response, w') \<Rightarrow>
          (case list_next_cursor response of
             None \<Rightarrow> Some (Inr (fetched @ list_results response), w')
           | Some cursor \<Rightarrow>
               f env blockId (Some cursor) (fetched @ list_results response) w')) = Some y"
  obtain r w1 where wr: "withRetry (list_request env ?args) w = (r, w1)"
    by (cases "withRetry (list_request env ?args) w")
  note step = withRetry_fetches [OF is_request_requests(3) wr]
  show "fetches w < fetches (snd y) \<and> cache (snd y) = cache w
     \<and> clock_reads (snd y) = clock_reads w"
  proof (cases r)
    case (Inl error)
    then show ?thesis
      using body wr step by auto
  next
    case (Inr response)
    show ?thesis
    proof (cases "list_next_cursor response")
      case None
      then show ?thesis
        using body wr step Inr by auto
    next
      case (Some cursor)
      then have "f env blockId (Some cursor) (fetched @ list_results response) w1 = Some y"
        using body wr Inr by simp
      from IH [OF this] show ?thesis
        using step by simp
    qed
  qed
qed

lemma getCached_outside_dev: "\<not> isDev env \<Longrightarrow> getCached env key w = (Null, w)"
  by (simp add: getCached_def)

lemma setCache_outside_dev: "\<not> isDev env \<Longrightarrow> setCache env key d w = w"
  by (simp add: setCache_def)

lemma getPostBySlug_outside_dev:
  assumes "\<not> isDev env" and "getPostBySlug env databaseId s w = (r, w')"
  shows "fetches w < fetches w' \<and> cache w' = cache w \<and> clock_reads w' = clock_reads w"
proof -
  let ?args = "\<lparr>arg_database_id = databaseId, arg_page_size = 1, arg_start_cursor = None,
                 arg_filter_slug_equals = Some s\<rparr>"
  obtain r1 w1 where wr: "withRetry (query_request env ?args) w = (r1, w1)"
    by (cases "withRetry (query_request env ?args) w")
  note step = withRetry_fetches [OF is_request_requests(1) wr]
  have "w' = w1"
    using assms wr
    by (auto simp: getPostBySlug_def Let_def getCached_outside_dev setCache_outside_dev
        split: sum.splits list.splits if_splits)
  then show ?thesis
    using step by simp
qed

lemma getPage_outside_dev:
  assumes "\<not> isDev env" and "getPage env pageId w = (r, w')"
  shows "fetches w < fetches w' \<and> cache w' = cache w \<and> clock_reads w' = clock_reads w"
proof -
  obtain r1 w1 where wr: "withRetry (retrieve_request env pageId) w = (r1, w1)"
    by (cases "withRetry (retrieve_request env pageId) w")
  note step = withRetry_fetches [OF is_request_requests(2) wr]
  have "w' = w1"
    using assms wr
    by (auto simp: getPage_def Let_def getCached_outside_dev setCache_outside_dev split: sum.splits)
  then show ?thesis
    using step by simp
qed

lemma getDatabase_outside_dev:
  assumes "\<not> isDev env" and "getDatabase env databaseId includeUnpublished w = Some y"
  shows "fetches w < fetches (snd y) \<and> cache (snd y) = cache w
     \<and> clock_reads (snd y) = clock_reads w"
proof -
  from assms obtain y1 where q: "query_pages env databaseId None [] w = Some y1"
    and "snd y = snd y1"
    by (auto simp: getDatabase_def Let_def getCached_outside_dev setCache_outside_dev
        split: option.splits sum.splits prod.splits)
  then show ?thesis
    using query_pages_fetches [OF q] by simp
qed

lemma getBlocks_outside_dev:
  assumes "\<not> isDev env" and "getBlocks env blockId w = Some y"
  shows "fetches w < fetches (snd y) \<and> cache (snd y) = cache w
     \<and> clock_reads (snd y) = clock_reads w"
proof -
  from assms obtain y1 where q: "list_pages env blockId None [] w = Some y1"
    and "snd y = snd y1"
    by (auto simp: getBlocks_def Let_def getCached_outside_dev setCache_outside_dev
        split: option.splits sum.splits prod.splits)
  then show ?thesis
    using list_pages_fetches [OF q] by simp
qed

text \<open>
  Claim C8: outside development mode the cache does nothing. \<open>getCached\<close> returns
  \<open>null\<close> and \<open>setCache\<close> returns the state it was given, whatever the cache holds.
  Each of the four cached queries, when it returns, has sent at least one request to
  the content service and has left the cache as it was; so of two calls in a row with
  the same arguments both fetch. \<open>getDatabase\<close> and \<open>getBlocks\<close> return unless the
  service hands out cursors for ever.
\<close>

theorem cache_is_noop_outside_development:
  assumes "\<not> isDev env"
  shows "getCached env key w = (Null, w)
     \<and> setCache env key d w = w
     \<and> (\<forall>r1 w1 r2 w2.
          getPostBySlug env databaseId s w = (r1, w1) \<longrightarrow>
          getPostBySlug env databaseId s w1 = (r2, w2) \<longrightarrow>
          fetches w < fetches w1 \<and> fetches w1 < fetches w2 \<and> cache w2 = cache w)
     \<and> (\<forall>r1 w1 r2 w2.
          getPage env pageId w = (r1, w1) \<longrightarrow> getPage env pageId w1 = (r2, w2) \<longrightarrow>
          fetches w < fetches w1 \<and> fetches w1 < fetches w2 \<and> cache w2 = cache w)
     \<and> (\<forall>r1 w1 r2 w2.
          getDatabase env databaseId includeUnpublished w = Some (r1, w1) \<longrightarrow>
          getDatabase env databaseId includeUnpublished w1 = Some (r2, w2) \<longrightarrow>
          fetches w < fetches w1 \<and> fetches w1 < fetches w2 \<and> cache w2 = cache w)
     \<and> (\<forall>r1 w1 r2 w2.
          getBlocks env blockId w = Some (r1, w1) \<longrightarrow>
          getBlocks env blockId w1 = Some (r2, w2) \<longrightarrow>
          fetches w < fetches w1 \<and> fetches w1 < fetches w2 \<and> cache w2 = cache w)"
proof (intro conjI allI impI)
  show "getCached env key w = (Null, w)"
    by (rule getCached_outside_dev [OF assms])
  show "setCache env key d w = w"
    by (rule setCache_outside_dev [OF assms])
next
  fix r1 w1 r2 w2
  assume a: "getPostBySlug env databaseId s w = (r1, w1)"
    and b: "getPostBySlug env databaseId s w1 = (r2, w2)"
  show "fetches w < fetches w1" "fetches w1 < fetches w2" "cache w2 = cache w"
    using getPostBySlug_outside_dev [OF assms a] getPostBySlug_outside_dev [OF assms b]
    by simp_all
next
  fix r1 w1 r2 w2
  assume a: "getPage env pageId w = (r1, w1)" and b: "getPage env pageId w1 = (r2, w2)"
  show "fetches w < fetches w1" "fetches w1 < fetches w2" "cache w2 = cache w"
    using getPage_outside_dev [OF assms a] getPage_outside_dev [OF assms b] by simp_all
next
  fix r1 w1 r2 w2
  assume a: "getDatabase env databaseId includeUnpublished w = Some (r1, w1)"
    and b: "getDatabase env databaseId includeUnpublished w1 = Some (r2, w2)"
  show "fetches w < fetches w1" "fetches w1 < fetches w2" "cache w2 = cache w"
    using getDatabase_outside_dev [OF assms a] getDatabase_outside_dev [OF assms b]
    by simp_all
next
  fix r1 w1 r2 w2
  assume a: "getBlocks env blockId w = Some (r1, w1)"
    and b: "getBlocks env blockId w1 = Some (r2, w2)"
  show "fetches w < fetches w1" "fetches w1 < fetches w2" "cache w2 = cache w"
    using getBlocks_outside_dev [OF assms a] getBlocks_outside_dev [OF assms b] by simp_all
qed

lemma withRetry_resolved: "fn w = (Resolved v, w') \<Longrightarrow> withRetry fn w = (Inr v, w')"
  by (simp add: withRetry_def withRetry_loop.simps withTimeout_def)

lemma example_query:
  "withRetry (query_request (example_env dev)
       \<lparr>arg_database_id = d, arg_page_size = n, arg_start_cursor = c,
        arg_filter_slug_equals = None\<rparr>) w
     = (Inr \<lparr>query_results = example_results, query_next_cursor = None\<rparr>,
        w\<lparr>fetches := Suc (fetches w)\<rparr>)"
  by (rule withRetry_resolved) (simp add: query_request_def example_env_def)

lemma example_query_slug:
  "withRetry (query_request (example_env dev)
       \<lparr>arg_database_id = d, arg_page_size = n, arg_start_cursor = c,
        arg_filter_slug_equals = Some s\<rparr>) w
     = (Inr \<lparr>query_results = filter (\<lambda>r. first_slug r = Some s) example_results,
             query_next_cursor = None\<rparr>,
        w\<lparr>fetches := Suc (fetches w)\<rparr>)"
  by (rule withRetry_resolved) (simp add: query_request_def example_env_def)

lemma example_slug_first:
  "filter (\<lambda>r. first_slug r = Some ''first'') example_results
     = [example_post ''first'' ''2024-01-01'' True]"
  by (simp add: example_results_def example_post_def example_draft_def first_slug_def)

lemma example_slug_draft:
  "filter (\<lambda>r. first_slug r = Some ''draft'') example_results = [example_draft]"
  by (simp add: example_results_def example_post_def example_draft_def first_slug_def)

lemma example_isValid:
  "isValid (example_post s d p)" "\<not> isValid example_draft"
  by (simp_all add: isValid_def example_post_def example_draft_def)

lemma example_getDatabase:
  "getDatabase (example_env False) ''blog'' False w
     = Some (Inr (PostList
          [example_post ''fourth'' ''2024-02-01'' True,
           example_post ''first'' ''2024-01-01'' True,
           example_post ''third'' ''2024-01-01'' True]),
        w\<lparr>fetches := Suc (fetches w)\<rparr>)"
proof -
  let ?env = "example_env False"
  have dev: "\<not> isDev ?env" and parse: "date_getTime ?env = example_getTime"
    by (simp_all add: example_env_def)
  have "query_pages ?env ''blog'' None [] w
      = Some (Inr example_results, w\<lparr>fetches := Suc (fetches w)\<rparr>)"
    by (subst query_pages.simps) (simp add: example_query)
  then show ?thesis
    by (simp add: getDatabase_def getCached_outside_dev [OF dev] setCache_outside_dev [OF dev]
        parse example_filtered)
qed

lemma example_getPostBySlug:
  "getPostBySlug (example_env False) ''blog'' ''first'' w
     = (Inr (APost (example_post ''first'' ''2024-01-01'' True)),
        w\<lparr>fetches := Suc (fetches w)\<rparr>)"
proof -
  have dev: "\<not> isDev (example_env False)"
    by (simp add: example_env_def)
  show ?thesis
    by (simp add: getPostBySlug_def getCached_outside_dev [OF dev]
        setCache_outside_dev [OF dev] example_query_slug example_slug_first example_isValid)
qed

lemma example_getPage:
  "getPage (example_env False) ''page'' w
     = (Inr (APost (example_post ''first'' ''2024-01-01'' True)),
        w\<lparr>fetches := Suc (fetches w)\<rparr>)"
proof -
  have dev: "\<not> isDev (example_env False)"
    by (simp add: example_env_def)
  have "withRetry (retrieve_request (example_env False) ''page'') w
      = (Inr (example_post ''first'' ''2024-01-01'' True), w\<lparr>fetches := Suc (fetches w)\<rparr>)"
    by (rule withRetry_resolved) (simp add: retrieve_request_def example_env_def)
  then show ?thesis
    by (simp add: getPage_def getCached_outside_dev [OF dev] setCache_outside_dev [OF dev])
qed

lemma example_getBlocks:
  "getBlocks (example_env False) ''page'' w
     = Some (Inr (BlockList [example_block]), w\<lparr>fetches := Suc (fetches w)\<rparr>)"
proof -
  have dev: "\<not> isDev (example_env False)"
    by (simp add: example_env_def)
  have "withRetry (list_request (example_env False)
          \<lparr>arg_block_id = ''page'', arg_list_page_size = 100, arg_list_start_cursor = None\<rparr>) w
      = (Inr \<lparr>list_results = [example_block], list_next_cursor = None\<rparr>,
         w\<lparr>fetches := Suc (fetches w)\<rparr>)"
    by (rule withRetry_resolved) (simp add: list_request_def example_env_def)
  then have "list_pages (example_env False) ''page'' None [] w
      = Some (Inr [example_block], w\<lparr>fetches := Suc (fetches w)\<rparr>)"
    by (subst list_pages.simps) simp
  then show ?thesis
    by (simp add: getBlocks_def getCached_outside_dev [OF dev] setCache_outside_dev [OF dev])
qed

text \<open>
  Outside development mode a stale entry of the cache is not read, a write does not
  change the state, and each of the four queries, called twice in a row with the same
  arguments, sends one request per call (\<open>fetches\<close> goes from \<open>0\<close> to \<open>1\<close> to \<open>2\<close>) and
  leaves the cache as it was.
\<close>

theorem cache_is_noop_outside_development_witness:
  "\<not> isDev (example_env False)
   \<and> cache stale_world ''database:blog:false''
       = Some \<lparr>entry_data = PostList [], entry_timestamp = 1000\<rparr>
   \<and> getCached (example_env False) ''database:blog:false'' stale_world = (Null, stale_world)
   \<and> setCache (example_env False) ''database:blog:false'' Null stale_world = stale_world
   \<and> getPostBySlug (example_env False) ''blog'' ''first'' stale_world
       = (Inr (APost (example_post ''first'' ''2024-01-01'' True)), stale_world\<lparr>fetches := 1\<rparr>)
   \<and> getPostBySlug (example_env False) ''blog'' ''first'' (stale_world\<lparr>fetches := 1\<rparr>)
       = (Inr (APost (example_post ''first'' ''2024-01-01'' True)), stale_world\<lparr>fetches := 2\<rparr>)
   \<and> getPage (example_env False) ''page'' stale_world
       = (Inr (APost (example_post ''first'' ''2024-01-01'' True)), stale_world\<lparr>fetches := 1\<rparr>)
   \<and> getPage (example_env False) ''page'' (stale_world\<lparr>fetches := 1\<rparr>)
       = (Inr (APost (example_post ''first'' ''2024-01-01'' True)), stale_world\<lparr>fetches := 2\<rparr>)
   \<and> getDatabase (example_env False) ''blog'' False stale_world
       = Some (Inr (PostList
            [example_post ''fourth'' ''2024-02-01'' True,
             example_post ''first'' ''2024-01-01'' True,
             example_post ''third'' ''2024-01-01'' True]),
          stale_world\<lparr>fetches := 1\<rparr>)
   \<and> getDatabase (example_env False) ''blog'' False (stale_world\<lparr>fetches := 1\<rparr>)
       = Some (Inr (PostList
            [example_post ''fourth'' ''2024-02-01'' True,
             example_post ''first'' ''2024-01-01'' True,
             example_post ''third'' ''2024-01-01'' True]),
          stale_world\<lparr>fetches := 2\<rparr>)
   \<and> getBlocks (example_env False) ''page'' stale_world
       = Some (Inr (BlockList [example_block]), stale_world\<lparr>fetches := 1\<rparr>)
   \<and> getBlocks (example_env False) ''page'' (stale_world\<lparr>fetches := 1\<rparr>)
       = Some (Inr (BlockList [example_block]), stale_world\<lparr>fetches := 2\<rparr>)
   \<and> fetches stale_world = 0
   \<and> cache (stale_world\<lparr>fetches := 2\<rparr>) = cache stale_world"
  using cache_is_noop_outside_development
      [of "example_env False" "''database:blog:false''" stale_world Null "''blog''" "''first''"
        "''page''" False "''page''"]
  by (simp add: example_getDatabase example_getPostBySlug example_getPage example_getBlocks)
    (simp add: example_env_def stale_world_def)

lemma getCached_null_entry:
  "cache w key = Some \<lparr>entry_data = Null, entry_timestamp = t\<rparr>
     \<Longrightarrow> fst (getCached env key w) = Null"
  by (simp add: getCached_def Date_now_def)

lemma getCached_no_entry: "cache w key = None \<Longrightarrow> getCached env key w = (Null, w)"
  by (simp add: getCached_def)

lemma getCached_frame: "fetches (snd (getCached env key w)) = fetches w"
  by (simp add: getCached_def Date_now_def split: option.split)

text \<open>
  A cached \<open>null\<close> never answers \<open>getPostBySlug\<close>: \<open>getCached\<close> returns \<open>null\<close> for it, the
  test \<open>cached !== null\<close> fails as on a miss, and the query is sent again.
\<close>

lemma getPostBySlug_cached_null_fetches:
  assumes "cache w (''post-by-slug:'' @ databaseId @ '':'' @ s)
             = Some \<lparr>entry_data = Null, entry_timestamp = t\<rparr>"
  shows "fetches w < fetches (snd (getPostBySlug env databaseId s w))"
proof -
  let ?key = "''post-by-slug:'' @ databaseId @ '':'' @ s"
  let ?args = "\<lparr>arg_database_id = databaseId, arg_page_size = 1, arg_start_cursor = None,
                 arg_filter_slug_equals = Some s\<rparr>"
  obtain c w1 where g: "getCached env ?key w = (c, w1)"
    by (cases "getCached env ?key w")
  have c: "c = Null" and w1: "fetches w1 = fetches w"
    using getCached_null_entry [OF assms, of env] getCached_frame [of env ?key w] g by simp_all
  obtain r1 w2 where wr: "withRetry (query_request env ?args) w1 = (r1, w2)"
    by (cases "withRetry (query_request env ?args) w1")
  have "fetches w1 < fetches w2"
    by (rule withRetry_fetches(1) [OF is_request_requests(1) wr])
  moreover have "fetches (setCache env ?key d w2) = fetches w2" for d
    by (simp add: setCache_def Date_now_def)
  ultimately show ?thesis
    using g c w1 wr
    by (cases r1) (simp_all add: getPostBySlug_def Let_def split: list.split)
qed

text \<open>A cached post, within the time window, does answer it without a request.\<close>

lemma getPostBySlug_cached_post:
  assumes "isDev env"
    and "cache w (''post-by-slug:'' @ databaseId @ '':'' @ s)
           = Some \<lparr>entry_data = APost post, entry_timestamp = t\<rparr>"
    and "clock env (clock_reads w) - t \<le> CACHE_TTL_MS"
  shows "getPostBySlug env databaseId s w
           = (Inr (APost post), w\<lparr>clock_reads := Suc (clock_reads w)\<rparr>)"
  using assms by (simp add: getPostBySlug_def getCached_def Date_now_def)

text \<open>
  Claim C4, evaluated in development mode on the slug \<open>draft\<close>, whose record has an
  empty Description. The first call of \<open>getPostBySlug\<close> from the state at start-up sends
  one request, returns \<open>null\<close> and stores \<open>null\<close> under the key at time \<open>1000\<close>. The entry
  is there, but \<open>getCached\<close> one millisecond later returns \<open>null\<close> for it, as it does for
  a key without an entry. The second call, two milliseconds after the first and well
  within the window of \<open>60000\<close>, therefore sends a second request (\<open>fetches\<close> is \<open>2\<close>) and
  stores \<open>null\<close> again. A valid post is served from the cache: the second call for the
  slug \<open>first\<close> leaves \<open>fetches\<close> at \<open>1\<close>.
\<close>

theorem getPostBySlug_refetches_cached_null:
  "getPostBySlug (example_env True) ''blog'' ''draft'' fresh_world
     = (Inr Null,
        \<lparr>cache = [''post-by-slug:blog:draft''
                   \<mapsto> \<lparr>entry_data = Null, entry_timestamp = 1000\<rparr>],
         fetches = 1, clock_reads = 1\<rparr>)
   \<and> getCached (example_env True) ''post-by-slug:blog:draft''
       \<lparr>cache = [''post-by-slug:blog:draft''
                  \<mapsto> \<lparr>entry_data = Null, entry_timestamp = 1000\<rparr>],
        fetches = 1, clock_reads = 1\<rparr>
     = (Null,
        \<lparr>cache = [''post-by-slug:blog:draft''
                   \<mapsto> \<lparr>entry_data = Null, entry_timestamp = 1000\<rparr>],
         fetches = 1, clock_reads = 2\<rparr>)
   \<and> getCached (example_env True) ''post-by-slug:blog:other'' fresh_world = (Null, fresh_world)
   \<and> getPostBySlug (example_env True) ''blog'' ''draft''
       \<lparr>cache = [''post-by-slug:blog:draft''
                  \<mapsto> \<lparr>entry_data = Null, entry_timestamp = 1000\<rparr>],
        fetches = 1, clock_reads = 1\<rparr>
     = (Inr Null,
        \<lparr>cache = [''post-by-slug:blog:draft''
                   \<mapsto> \<lparr>entry_data = Null, entry_timestamp = 1002\<rparr>],
         fetches = 2, clock_reads = 3\<rparr>)
   \<and> getPostBySlug (example_env True) ''blog'' ''first'' fresh_world
     = (Inr (APost (example_post ''first'' ''2024-01-01'' True)),
        \<lparr>cache = [''post-by-slug:blog:first''
                   \<mapsto> \<lparr>entry_data = APost (example_post ''first'' ''2024-01-01'' True),
                       entry_timestamp = 1000\<rparr>],
         fetches = 1, clock_reads = 1\<rparr>)
   \<and> getPostBySlug (example_env True) ''blog'' ''first''
       \<lparr>cache = [''post-by-slug:blog:first''
                  \<mapsto> \<lparr>entry_data = APost (example_post ''first'' ''2024-01-01'' True),
                      entry_timestamp = 1000\<rparr>],
        fetches = 1, clock_reads = 1\<rparr>
     = (Inr (APost (example_post ''first'' ''2024-01-01'' True)),
        \<lparr>cache = [''post-by-slug:blog:first''
                   \<mapsto> \<lparr>entry_data = APost (example_post ''first'' ''2024-01-01'' True),
                       entry_timestamp = 1000\<rparr>],
         fetches = 1, clock_reads = 2\<rparr>)"
proof -
  have env: "isDev (example_env True)" "clock (example_env True) = (\<lambda>n. 1000 + int n)"
    by (simp_all add: example_env_def)
  show ?thesis
    by (simp add: getPostBySlug_def getCached_def setCache_def Date_now_def CACHE_TTL_MS_def
        fresh_world_def env example_query_slug example_slug_draft example_slug_first
        example_isValid)
qed

section \<open>Properties of the resilient call wrapper\<close>

lemma isRetryableError_numeric_status:
  assumes "err_code e = Some ''notionhq_client_response_error''" and "err_status e = Some n"
    and "n \<noteq> 0"
  shows "isRetryableError e \<longleftrightarrow> n = 502 \<or> n = 503 \<or> n = 504 \<or> n = 429"
  using assms by (simp add: isRetryableError_def status_of_def js_or_def Let_def)

lemma isRetryableError_message_status:
  assumes "err_code e = Some ''notionhq_client_response_error''" and "err_status e = None"
  shows "\<not> isRetryableError e"
  using assms
  by (simp add: isRetryableError_def status_of_def js_or_def Let_def split: option.split json.split)

lemma isRetryableError_network:
  assumes "err_code e = Some ''ECONNRESET'' \<or> err_code e = Some ''ETIMEDOUT''
             \<or> err_code e = Some ''ENOTFOUND''"
  shows "isRetryableError e"
  using assms by (auto simp add: isRetryableError_def)

lemma match_status_503:
  "match_status ''Request to Notion API failed with status: 503'' = Some ''503''"
  by (simp add: is_space_def is_digit_def)

text \<open>
  With the status in the \<open>status\<close> property the wrapper does what the specification
  says: an operation that fails with a 503 twice and then succeeds is invoked three
  times and its value returned, one that fails with a 400 is invoked once, and one that
  keeps failing with a 503 is invoked \<open>MAX_RETRIES + 1 = 6\<close> times.
\<close>

lemma withRetry_numeric_status:
  "withRetry (scripted [Rejected (response_error (Some 503) m),
                        Rejected (response_error (Some 503) m), Resolved v]) 0 = (Inr v, 3)"
  "withRetry (scripted [Rejected (response_error (Some 400) m), Resolved v]) 0
     = (Inl (response_error (Some 400) m), 1)"
  "withRetry (scripted (replicate 7 (Rejected (response_error (Some 503) m)))) 0
     = (Inl (response_error (Some 503) m), 6)"
  by (simp_all add: withRetry_def withRetry_loop.simps withTimeout_def scripted_def
      isRetryableError_def status_of_def js_or_def Let_def response_error_def MAX_RETRIES_def
      numeral_eq_Suc)

text \<open>
  Claim C3, evaluated on the error
  \<open>{code: "notionhq_client_response_error", message: "Request to Notion API failed with
  status: 503"}\<close>, which carries its status in the message only. The regular expression
  finds the status, as the string \<open>"503"\<close>; \<open>===\<close> does not hold between it and the number
  \<open>503\<close>, so the error is classified as not retryable. An operation that fails with
  it twice and would then succeed is invoked once and the error is thrown. The same script
  with the status in the \<open>status\<close> property is retried: three invocations, and the value.
\<close>

theorem withRetry_message_status_not_retried:
  "status_of (response_error None ''Request to Notion API failed with status: 503'')
     = JStr ''503''
   \<and> isRetryableError (response_error None ''Request to Notion API failed with status: 503'')
     = False
   \<and> withRetry
       (scripted
          [Rejected (response_error None ''Request to Notion API failed with status: 503''),
           Rejected (response_error None ''Request to Notion API failed with status: 503''),
           Resolved (7 :: int)]) 0
     = (Inl (response_error None ''Request to Notion API failed with status: 503''), 1)
   \<and> isRetryableError
       (response_error (Some 503) ''Request to Notion API failed with status: 503'')
     = True
   \<and> withRetry
       (scripted
          [Rejected (response_error (Some 503) ''Request to Notion API failed with status: 503''),
           Rejected (response_error (Some 503) ''Request to Notion API failed with status: 503''),
           Resolved (7 :: int)]) 0
     = (Inr 7, 3)"
proof -
  let ?m = "''Request to Notion API failed with status: 503''"
  have status: "status_of (response_error None ?m) = JStr ''503''"
    by (simp add: status_of_def js_or_def response_error_def match_status_503 del: match_status.simps)
  have code: "err_code (response_error None ?m) = Some ''notionhq_client_response_error''"
    by (simp add: response_error_def)
  have no: "isRetryableError (response_error None ?m) = False"
    by (simp add: isRetryableError_def Let_def status code)
  have yes: "isRetryableError (response_error (Some 503) ?m) = True"
    by (simp add: isRetryableError_def status_of_def js_or_def Let_def response_error_def)
  have first: "withRetry (scripted [Rejected (response_error None ?m),
        Rejected (response_error None ?m), Resolved (7 :: int)]) 0
      = (Inl (response_error None ?m), 1)"
    by (simp add: withRetry_def withRetry_loop.simps [of 0] withTimeout_def scripted_def no
        MAX_RETRIES_def)
  have second: "withRetry (scripted [Rejected (response_error (Some 503) ?m),
        Rejected (response_error (Some 503) ?m), Resolved (7 :: int)]) 0 = (Inr 7, 3)"
    by (rule withRetry_numeric_status(1))
  from status no yes first second show ?thesis
    by (intro conjI)
qed

end
